theory Spec2Isabelle
  imports Complex_Main "HOL-Library.Product_Lexorder"
begin

section \<open>The checkpoint converter (ai84ize.py)\<close>

subsection \<open>Errors\<close>

text \<open>
  Every exception the converter can raise is a value of \<open>error\<close>; a computation that can
  raise returns \<open>error + 'a\<close> with \<open>Inl\<close> for the exception.
\<close>

datatype error = RuntimeError | ValueError | KeyError | IndexError | AttributeError

subsection \<open>The host tensor library\<close>

text \<open>
  The converter computes with the tensors of the host library, in its floating-point
  arithmetic. What those operations return is the library's business and is not fixed
  here: a tensor is a value of a type \<open>'t\<close>, a scalar (a Python float or a 0-dimensional
  tensor) a value of a type \<open>'s\<close>, and each operation the converter calls is a field of the
  record below, named after the call. The operations that can raise return \<open>error + _\<close>.
  Everything about the converter is stated for every such record. The products of a
  Python number with a scalar are taken to return: Python raises OverflowError for an
  integer factor beyond the floats, \<open>2**1024\<close> and more, which no bit width in use reaches.
\<close>

record ('t, 's) torch =
  t_nonzero_numel :: "'t \<Rightarrow> nat"  \<comment> \<open>\<open>t.nonzero().numel()\<close>\<close>
  t_shape :: "'t \<Rightarrow> nat list"  \<comment> \<open>\<open>t.shape\<close>\<close>
  t_view :: "'t \<Rightarrow> int list \<Rightarrow> error + 't"  \<comment> \<open>\<open>t.view(*dims)\<close>\<close>
  t_min :: "'t \<Rightarrow> error + 's"  \<comment> \<open>\<open>t.min()\<close>\<close>
  t_max :: "'t \<Rightarrow> error + 's"  \<comment> \<open>\<open>t.max()\<close>\<close>
  t_mean :: "'t \<Rightarrow> 's"  \<comment> \<open>\<open>t.mean()\<close>\<close>
  t_std :: "'t \<Rightarrow> 's"  \<comment> \<open>\<open>t.std()\<close>\<close>
  t_min_dim :: "'t \<Rightarrow> int \<Rightarrow> error + 't"  \<comment> \<open>\<open>t.min(dim=d)[0]\<close>\<close>
  t_max_dim :: "'t \<Rightarrow> int \<Rightarrow> error + 't"  \<comment> \<open>\<open>t.max(dim=d)[0]\<close>\<close>
  s_abs :: "'s \<Rightarrow> 's"  \<comment> \<open>\<open>a.abs_()\<close>, on a scalar just computed\<close>
  s_max :: "'s \<Rightarrow> 's \<Rightarrow> 's"  \<comment> \<open>\<open>torch.max(a, b)\<close>\<close>
  s_min :: "'s \<Rightarrow> 's \<Rightarrow> 's"  \<comment> \<open>\<open>torch.min(a, b)\<close>\<close>
  s_add :: "'s \<Rightarrow> 's \<Rightarrow> 's"  \<comment> \<open>\<open>a + b\<close>\<close>
  s_sub :: "'s \<Rightarrow> 's \<Rightarrow> 's"  \<comment> \<open>\<open>a - b\<close>\<close>
  s_times :: "real \<Rightarrow> 's \<Rightarrow> 's"  \<comment> \<open>\<open>n * a\<close> for a Python number \<open>n\<close>\<close>
  s_literal :: "real \<Rightarrow> 's"  \<comment> \<open>the Python float a decimal literal denotes\<close>
  t_scale :: "'s \<Rightarrow> 't \<Rightarrow> 't"  \<comment> \<open>\<open>a * t\<close> for a scalar \<open>a\<close>\<close>
  t_clamp :: "real \<Rightarrow> real \<Rightarrow> 't \<Rightarrow> 't"  \<comment> \<open>\<open>t.clamp(min=lo, max=hi)\<close>\<close>
  t_round :: "'t \<Rightarrow> 't"  \<comment> \<open>\<open>t.round()\<close>, \<open>torch.round(t)\<close>\<close>
  t_mul :: "'t \<Rightarrow> 't \<Rightarrow> error + 't"  \<comment> \<open>\<open>a * b\<close>\<close>
  t_imul :: "'t \<Rightarrow> 't \<Rightarrow> error + 't"  \<comment> \<open>\<open>a *= b\<close>: what \<open>a\<close> then holds\<close>

text \<open>\<open>2**n\<close> for a Python integer \<open>n\<close>: an integer for \<open>n \<ge> 0\<close>, a float below.\<close>

definition pow2 :: "int \<Rightarrow> real" where
  "pow2 n = (if 0 \<le> n then 2 ^ nat n else 1 / 2 ^ nat (- n))"

text \<open>\<open>t.nonzero().numel() != 0\<close>.\<close>

definition has_nonzero :: "('t, 's) torch \<Rightarrow> 't \<Rightarrow> bool" where
  "has_nonzero T t = (t_nonzero_numel T t \<noteq> 0)"

subsection \<open>Strings and dictionaries\<close>

text \<open>
  \<open>a, b = k.rsplit(sep='.', maxsplit=1)\<close> and \<open>a, b = k.split(sep='.', maxsplit=1)\<close>:
  \<open>None\<close> when \<open>k\<close> has no dot, where the unpacking raises ValueError.
\<close>

fun rsplit1 :: "string \<Rightarrow> (string \<times> string) option" where
  "rsplit1 [] = None"
| "rsplit1 (c # cs) =
     (case rsplit1 cs of
        Some (a, b) \<Rightarrow> Some (c # a, b)
      | None \<Rightarrow> if c = CHR ''.'' then Some ([], cs) else None)"

fun split1 :: "string \<Rightarrow> (string \<times> string) option" where
  "split1 [] = None"
| "split1 (c # cs) =
     (if c = CHR ''.'' then Some ([], cs)
      else map_option (\<lambda>(a, b). (c # a, b)) (split1 cs))"

text \<open>
  A dictionary keeps its keys in insertion order: an association list with distinct keys.
  Storing under a present key keeps its place, storing under a new key appends; reading or
  deleting a missing key raises KeyError.
\<close>

type_synonym 'v dict = "(string \<times> 'v) list"

definition contains :: "'v dict \<Rightarrow> string \<Rightarrow> bool" where
  "contains d k = (map_of d k \<noteq> None)"

definition getitem :: "'v dict \<Rightarrow> string \<Rightarrow> error + 'v" where
  "getitem d k = (case map_of d k of None \<Rightarrow> Inl KeyError | Some v \<Rightarrow> Inr v)"

fun setitem :: "string \<Rightarrow> 'v \<Rightarrow> 'v dict \<Rightarrow> 'v dict" where
  "setitem k v [] = [(k, v)]"
| "setitem k v (p # ps) = (if fst p = k then (k, v) # ps else p # setitem k v ps)"

definition delitem :: "string \<Rightarrow> 'v dict \<Rightarrow> error + 'v dict" where
  "delitem k d = (if contains d k then Inr (filter (\<lambda>p. fst p \<noteq> k) d) else Inl KeyError)"

text \<open>Sequencing of computations that can raise.\<close>

definition bind_err :: "error + 'a \<Rightarrow> ('a \<Rightarrow> error + 'b) \<Rightarrow> error + 'b" where
  "bind_err m f = (case m of Inl e \<Rightarrow> Inl e | Inr x \<Rightarrow> f x)"

subsection \<open>The saturation statistics\<close>

text \<open>
  \<open>view_dims = [t.shape[i] for i in range(dim + 1)] + [-1]\<close> with \<open>dim = 0\<close>: indexing the
  shape of a 0-dimensional tensor raises IndexError.
\<close>

definition avg_max :: "('t, 's) torch \<Rightarrow> 't \<Rightarrow> error + 's" where
  "avg_max T t =
     (case t_shape T t of
        [] \<Rightarrow> Inl IndexError
      | n # _ \<Rightarrow>
          bind_err (t_view T t [int n, - 1]) (\<lambda>tv.
          bind_err (t_min_dim T tv (- 1)) (\<lambda>avg_min.
          bind_err (t_max_dim T tv (- 1)) (\<lambda>avg_max.
            Inr (s_max T (s_abs T (t_mean T avg_min)) (s_abs T (t_mean T avg_max)))))))"

definition max_max :: "('t, 's) torch \<Rightarrow> 't \<Rightarrow> error + 's" where
  "max_max T t =
     bind_err (t_min T t) (\<lambda>mn.
     bind_err (t_max T t) (\<lambda>mx. Inr (s_max T (s_abs T mn) (s_abs T mx))))"

definition mean_n_stds_max_abs :: "('t, 's) torch \<Rightarrow> 't \<Rightarrow> int \<Rightarrow> error + 's" where
  "mean_n_stds_max_abs T t n_stds =
     (if n_stds \<le> 0 then Inl ValueError
      else
        let mean = t_mean T t; std = t_std T t
        in bind_err (t_min T t) (\<lambda>mn.
             let min_val = s_max T mn (s_sub T mean (s_times T (of_int n_stds) std))
             in bind_err (t_max T t) (\<lambda>mx.
                  let max_val = s_min T mx (s_add T mean (s_times T (of_int n_stds) std))
                  in Inr (s_max T (s_abs T min_val) (s_abs T max_val)))))"

definition magic :: real where
  "magic = 6372803137 / 10000000000"

definition get_const :: "('t, 's) torch \<Rightarrow> 't \<Rightarrow> error + 's" where
  "get_const T _ = Inr (s_literal T magic)"

record arguments =
  embedded :: bool
  quantized :: bool
  verbose :: bool
  clip_mode :: string

definition sat_fn :: "('t, 's) torch \<Rightarrow> arguments \<Rightarrow> 't \<Rightarrow> error + 's" where
  "sat_fn T arguments =
     (if clip_mode arguments = ''STD'' then (\<lambda>t. mean_n_stds_max_abs T t 2)
      else if clip_mode arguments = ''MAX'' then max_max T
      else if clip_mode arguments = ''AVGMAX'' then avg_max T
      else get_const T)"

definition fc_sat_fn :: "('t, 's) torch \<Rightarrow> 't \<Rightarrow> error + 's" where
  "fc_sat_fn T = get_const T"

subsection \<open>The conversion\<close>

definition CONV_SCALE_BITS :: int where "CONV_SCALE_BITS = 8"
definition FC_SCALE_BITS :: int where "FC_SCALE_BITS = 8"
definition FC_CLAMP_BITS :: int where "FC_CLAMP_BITS = 16"

text \<open>
  \<open>w.clamp(min=-(2**(clamp_bits-1)), max=2**(clamp_bits-1)-1).round()\<close>, the expression
  both modes end with.
\<close>

definition clamp_round :: "('t, 's) torch \<Rightarrow> int \<Rightarrow> 't \<Rightarrow> 't" where
  "clamp_round T clamp_bits w =
     t_round T (t_clamp T (- pow2 (clamp_bits - 1)) (pow2 (clamp_bits - 1) - 1) w)"

text \<open>
  What the verbose branch of the non-quantized path evaluates for its diagnostic line; the
  text itself is not modelled, the exceptions are.
\<close>

definition verbose_stats :: "('t, 's) torch \<Rightarrow> 't \<Rightarrow> error + unit" where
  "verbose_stats T t = bind_err (avg_max T t) (\<lambda>_. bind_err (max_max T t) (\<lambda>_. Inr ()))"

text \<open>
  The body of the loop over the keys of the state dictionary. \<open>WEIGHT_BITS\<close> (module
  \<open>ai84\<close>) and \<open>pow2_round\<close> (module \<open>range_linear_ai84\<close>) are not part of the sources at
  hand and are parameters. The in-place product of the quantized path changes the tensor
  object held by \<open>checkpoint_state[k]\<close> and \<open>new_checkpoint_state[k]\<close>; the first is
  never read again and the second is deleted in the same iteration, so the model passes
  the product on as a value. This is the code's behaviour when no two entries of the
  state dictionary share their storage, which the model takes for granted. The source's
  \<open>module\<close> is \<open>modul\<close> here, and its test of the module-level \<open>args.verbose\<close> is the test
  of \<open>arguments\<close>, the same object when the file runs as a script.
\<close>

definition convert_key ::
  "('t, 's) torch \<Rightarrow> int \<Rightarrow> ('t \<Rightarrow> int \<Rightarrow> error + 't) \<Rightarrow> arguments \<Rightarrow> 't dict \<Rightarrow> string
     \<Rightarrow> 't dict \<Rightarrow> error + 't dict" where
  "convert_key T WEIGHT_BITS pow2_round arguments checkpoint_state k new_checkpoint_state =
     (case rsplit1 k of
        None \<Rightarrow> Inl ValueError
      | Some (operation, parameter) \<Rightarrow>
          if parameter \<in> set [''w_zero_point'', ''b_zero_point''] then
            bind_err (getitem checkpoint_state k) (\<lambda>t.
              if has_nonzero T t then Inl RuntimeError
              else delitem k new_checkpoint_state)
          else if parameter \<in> set [''weight'', ''bias''] then
            (if \<not> quantized arguments then
               (case split1 k of
                  None \<Rightarrow> Inl ValueError
                | Some (modul, _) \<Rightarrow>
                    let clamp_bits = (if modul \<noteq> ''fc'' then WEIGHT_BITS else FC_CLAMP_BITS)
                    in bind_err (getitem checkpoint_state k) (\<lambda>t.
                       bind_err (if modul \<noteq> ''fc'' then sat_fn T arguments t else fc_sat_fn T t)
                         (\<lambda>s.
                       let factor = s_times T (pow2 (clamp_bits - 1)) s
                       in bind_err (if verbose arguments then verbose_stats T t else Inr ())
                         (\<lambda>_.
                       let weights = t_scale T factor t;
                           weights = clamp_round T clamp_bits weights
                       in Inr (setitem k weights new_checkpoint_state)))))
             else
               (case rsplit1 operation of
                  None \<Rightarrow> Inl ValueError
                | Some (modul, st) \<Rightarrow>
                    if st \<in> set [''wrapped_module''] then
                      let scale = modul @ ''.'' @ take 1 parameter @ ''_scale''
                      in bind_err (getitem checkpoint_state k) (\<lambda>weights.
                         let (scale_bits, clamp_bits) =
                               (if modul \<noteq> ''fc'' then (CONV_SCALE_BITS, WEIGHT_BITS)
                                else (FC_SCALE_BITS, FC_CLAMP_BITS))
                         in bind_err (getitem checkpoint_state scale) (\<lambda>fp_scale.
                            bind_err
                              (if modul \<notin> set [''fc'']
                               then bind_err (pow2_round fp_scale scale_bits)
                                      (t_imul T weights)
                               else bind_err (t_mul T weights fp_scale)
                                      (\<lambda>w. Inr (t_round T w)))
                              (\<lambda>weights.
                            let weights = clamp_round T clamp_bits weights
                            in bind_err
                                 (delitem k
                                    (setitem (modul @ ''.'' @ parameter) weights
                                       new_checkpoint_state))
                                 (delitem scale))))
                    else Inr new_checkpoint_state))
          else if parameter \<in> set [''base_b_q''] then delitem k new_checkpoint_state
          else Inr new_checkpoint_state)"

fun convert_loop ::
  "('t, 's) torch \<Rightarrow> int \<Rightarrow> ('t \<Rightarrow> int \<Rightarrow> error + 't) \<Rightarrow> arguments \<Rightarrow> 't dict \<Rightarrow> string list
     \<Rightarrow> 't dict \<Rightarrow> error + 't dict" where
  "convert_loop T WEIGHT_BITS pow2_round arguments checkpoint_state [] new_checkpoint_state =
     Inr new_checkpoint_state"
| "convert_loop T WEIGHT_BITS pow2_round arguments checkpoint_state (k # ks) new_checkpoint_state =
     (case convert_key T WEIGHT_BITS pow2_round arguments checkpoint_state k new_checkpoint_state of
        Inl e \<Rightarrow> Inl e
      | Inr ns \<Rightarrow> convert_loop T WEIGHT_BITS pow2_round arguments checkpoint_state ks ns)"

text \<open>
  A checkpoint is a dictionary whose \<open>state_dict\<close> entry is the state dictionary; what the
  other entries hold (the optimizer state, the epoch, ...) is opaque to the converter.
\<close>

datatype 't cval = StateDict "'t dict" | Other nat

type_synonym 't checkpoint = "'t cval dict"

text \<open>
  The converter's part up to the end of the loop: the checkpoint dictionary with the
  entries it then has, and \<open>new_checkpoint_state\<close>. The state dictionary this checkpoint
  still holds is replaced or dropped by what follows; its tensors, which the in-place
  product of the quantized path has changed by then, are given as they were loaded.
\<close>

definition convert_state ::
  "('t, 's) torch \<Rightarrow> int \<Rightarrow> ('t \<Rightarrow> int \<Rightarrow> error + 't) \<Rightarrow> arguments \<Rightarrow> 't checkpoint
     \<Rightarrow> error + ('t checkpoint \<times> 't dict)" where
  "convert_state T WEIGHT_BITS pow2_round arguments checkpoint =
     bind_err
       (if quantized arguments then
          (if \<not> contains checkpoint ''quantizer_metadata'' then Inl RuntimeError
           else delitem ''quantizer_metadata'' checkpoint)
        else Inr checkpoint)
       (\<lambda>checkpoint.
          if \<not> contains checkpoint ''state_dict'' then Inl RuntimeError
          else bind_err (getitem checkpoint ''state_dict'') (\<lambda>v.
            case v of
              Other _ \<Rightarrow> Inl AttributeError
            | StateDict checkpoint_state \<Rightarrow>
                bind_err
                  (convert_loop T WEIGHT_BITS pow2_round arguments checkpoint_state
                     (map fst checkpoint_state) checkpoint_state)
                  (\<lambda>new_checkpoint_state. Inr (checkpoint, new_checkpoint_state))))"

text \<open>
  The effects of a conversion: the checkpoint written to the output file, if one is, and
  the parameter dump on standard output (the banner and the verbose diagnostics are left
  out). The dump has, for each entry, the \<open>#define\<close> line and then the entry's tensor as
  \<open>.numpy().astype(int)\<close> prints it: \<open>AsInt t\<close> stands for that print of \<open>t\<close>, whose digits
  are the library's business. Strings are byte strings; on the ASCII letters, which is
  where the properties below apply it, \<open>upper()\<close> maps \<open>a\<close> to \<open>z\<close> to \<open>A\<close> to \<open>Z\<close>.
\<close>

datatype 't line = is_Text: Text string | AsInt 't

record 't effects =
  saved :: "'t checkpoint option"
  printed :: "'t line list"

definition upper :: "string \<Rightarrow> string" where
  "upper s = map (\<lambda>c. let n = (of_char c :: nat)
                       in if 97 \<le> n \<and> n \<le> 122 then char_of (n - 32) else c) s"

definition replace :: "char \<Rightarrow> char \<Rightarrow> string \<Rightarrow> string" where
  "replace old new s = map (\<lambda>c. if c = old then new else c) s"

definition define_line :: "string \<Rightarrow> 't line" where
  "define_line k =
     Text (''#define '' @ upper (replace CHR ''.'' CHR ''_'' k) @ '' '' @ [CHR 0x5C])"

definition convert_checkpoint ::
  "('t, 's) torch \<Rightarrow> int \<Rightarrow> ('t \<Rightarrow> int \<Rightarrow> error + 't) \<Rightarrow> arguments \<Rightarrow> 't checkpoint
     \<Rightarrow> error + 't effects" where
  "convert_checkpoint T WEIGHT_BITS pow2_round arguments checkpoint =
     bind_err (convert_state T WEIGHT_BITS pow2_round arguments checkpoint)
       (\<lambda>(checkpoint, new_checkpoint_state).
          if \<not> embedded arguments then
            Inr \<lparr>saved = Some (setitem ''state_dict'' (StateDict new_checkpoint_state) checkpoint),
                 printed = []\<rparr>
          else
            Inr \<lparr>saved = None,
                 printed = concat (map (\<lambda>(k, t). [define_line k, AsInt t])
                                      new_checkpoint_state)\<rparr>)"

subsection \<open>Key components\<close>

text \<open>
  The last and the first dot-separated component of a key, for any key: a key with no dot is
  its own only component.
\<close>

definition last_component :: "string \<Rightarrow> string" where
  "last_component k = (case rsplit1 k of None \<Rightarrow> k | Some (_, p) \<Rightarrow> p)"

definition first_component :: "string \<Rightarrow> string" where
  "first_component k = (case split1 k of None \<Rightarrow> k | Some (m, _) \<Rightarrow> m)"


text \<open>A string of ASCII characters.\<close>

definition ascii :: "string \<Rightarrow> bool" where
  "ascii s = list_all (\<lambda>c. (of_char c :: nat) < 128) s"

subsection \<open>Fixed-point tensors\<close>



section \<open>An instance of the library, for evaluating examples\<close>

text \<open>
  The properties of the converter hold for every library. To run the converter on a
  concrete checkpoint some library is needed: the one below computes with exact numbers
  (and NaN as \<open>None\<close>) on tensors given by their shape and their elements in row-major
  order. It is an instance for the examples and no description of the host library's
  floating-point results.
\<close>

type_synonym fl = "real option"

definition fmul :: "fl \<Rightarrow> fl \<Rightarrow> fl" where
  "fmul a b = (case a of None \<Rightarrow> None | Some x \<Rightarrow> map_option (\<lambda>y. x * y) b)"

definition fadd :: "fl \<Rightarrow> fl \<Rightarrow> fl" where
  "fadd a b = (case a of None \<Rightarrow> None | Some x \<Rightarrow> map_option (\<lambda>y. x + y) b)"

definition fsub :: "fl \<Rightarrow> fl \<Rightarrow> fl" where
  "fsub a b = (case a of None \<Rightarrow> None | Some x \<Rightarrow> map_option (\<lambda>y. x - y) b)"

definition fmax :: "fl \<Rightarrow> fl \<Rightarrow> fl" where
  "fmax a b = (case a of None \<Rightarrow> None | Some x \<Rightarrow> map_option (\<lambda>y. max x y) b)"

definition fmin :: "fl \<Rightarrow> fl \<Rightarrow> fl" where
  "fmin a b = (case a of None \<Rightarrow> None | Some x \<Rightarrow> map_option (\<lambda>y. min x y) b)"

definition fabs :: "fl \<Rightarrow> fl" where
  "fabs a = map_option abs a"

datatype tensor = Tensor (shape: "nat list") (elems: "fl list")

text \<open>Rounding to the nearest integer, ties to the even one.\<close>

definition round_half_even :: "real \<Rightarrow> int" where
  "round_half_even x =
     (let f = \<lfloor>x\<rfloor>; d = x - of_int f
      in if d < 1 / 2 then f else if 1 / 2 < d then f + 1 else if even f then f else f + 1)"

definition tround :: "tensor \<Rightarrow> tensor" where
  "tround t = Tensor (shape t) (map (map_option (\<lambda>x. of_int (round_half_even x))) (elems t))"

definition tclamp :: "real \<Rightarrow> real \<Rightarrow> tensor \<Rightarrow> tensor" where
  "tclamp lo hi t = Tensor (shape t) (map (map_option (\<lambda>x. min (max x lo) hi)) (elems t))"

definition tscale :: "fl \<Rightarrow> tensor \<Rightarrow> tensor" where
  "tscale c t = Tensor (shape t) (map (fmul c) (elems t))"

definition nonzero_numel :: "tensor \<Rightarrow> nat" where
  "nonzero_numel t = length (filter (\<lambda>x. x \<noteq> Some 0) (elems t))"

text \<open>
  The reductions: the extrema raise on a tensor with no element, the mean of no element
  and the unbiased standard deviation of fewer than two are NaN. The square root has no
  code equation, so \<open>rstd\<close> is left out of evaluation by the code equations.
\<close>

definition rmin :: "fl list \<Rightarrow> fl" where
  "rmin xs = (case those xs of None \<Rightarrow> None | Some [] \<Rightarrow> None | Some (y # ys) \<Rightarrow> Some (fold min ys y))"

definition rmax :: "fl list \<Rightarrow> fl" where
  "rmax xs = (case those xs of None \<Rightarrow> None | Some [] \<Rightarrow> None | Some (y # ys) \<Rightarrow> Some (fold max ys y))"

definition rmean :: "fl list \<Rightarrow> fl" where
  "rmean xs = (case those xs of None \<Rightarrow> None
     | Some ys \<Rightarrow> if ys = [] then None else Some (sum_list ys / real (length ys)))"

definition rstd :: "fl list \<Rightarrow> fl" where
  "rstd xs = (case those xs of None \<Rightarrow> None
     | Some ys \<Rightarrow> if length ys < 2 then None
         else (let m = sum_list ys / real (length ys)
               in Some (sqrt (sum_list (map (\<lambda>y. (y - m)\<^sup>2) ys) / real (length ys - 1)))))"

declare rstd_def [code del]

definition tmin :: "tensor \<Rightarrow> error + fl" where
  "tmin t = (if elems t = [] then Inl RuntimeError else Inr (rmin (elems t)))"

definition tmax :: "tensor \<Rightarrow> error + fl" where
  "tmax t = (if elems t = [] then Inl RuntimeError else Inr (rmax (elems t)))"

definition tmean :: "tensor \<Rightarrow> fl" where
  "tmean t = rmean (elems t)"

definition tstd :: "tensor \<Rightarrow> fl" where
  "tstd t = rstd (elems t)"

text \<open>
  The view as rows, for the one form of dimensions the converter asks for, and the
  extrema along the last dimension of such a view.
\<close>

definition tview :: "tensor \<Rightarrow> int list \<Rightarrow> error + tensor" where
  "tview t dims =
     (case dims of
        [n, m] \<Rightarrow>
          if m = - 1 \<and> 0 < n \<and> elems t \<noteq> [] \<and> length (elems t) mod nat n = 0
          then Inr (Tensor [nat n, length (elems t) div nat n] (elems t))
          else Inl RuntimeError
      | _ \<Rightarrow> Inl RuntimeError)"

definition reduce_rows :: "(fl list \<Rightarrow> fl) \<Rightarrow> tensor \<Rightarrow> int \<Rightarrow> error + tensor" where
  "reduce_rows f t d =
     (case shape t of
        [n, m] \<Rightarrow>
          if d \<noteq> - 1 then Inl RuntimeError
          else if m = 0 then Inl IndexError
          else Inr (Tensor [n] (map (\<lambda>i. f (take m (drop (i * m) (elems t)))) [0..<n]))
      | _ \<Rightarrow> Inl RuntimeError)"

fun bshape_rev :: "nat list \<Rightarrow> nat list \<Rightarrow> nat list option" where
  "bshape_rev [] ys = Some ys"
| "bshape_rev (x # xs) [] = Some (x # xs)"
| "bshape_rev (x # xs) (y # ys) =
     (if x = y \<or> y = 1 then map_option ((#) x) (bshape_rev xs ys)
      else if x = 1 then map_option ((#) y) (bshape_rev xs ys)
      else None)"

definition broadcast_shape :: "nat list \<Rightarrow> nat list \<Rightarrow> nat list option" where
  "broadcast_shape s1 s2 = map_option rev (bshape_rev (rev s1) (rev s2))"

fun expand :: "nat list \<Rightarrow> nat list \<Rightarrow> 'a list \<Rightarrow> 'a list" where
  "expand [] s xs = xs"
| "expand (n # ns) s xs =
     (if length s \<le> length ns then concat (replicate n (expand ns s xs))
      else (case s of [] \<Rightarrow> xs
        | d # ds \<Rightarrow>
            if d = n
            then (let m = prod_list ds
                  in concat (map (\<lambda>i. expand ns ds (take m (drop (i * m) xs))) [0..<n]))
            else concat (replicate n (expand ns ds xs))))"

text \<open>The product of two tensors; shapes that do not broadcast raise RuntimeError.\<close>

definition tmul :: "tensor \<Rightarrow> tensor \<Rightarrow> error + tensor" where
  "tmul a b = (case broadcast_shape (shape a) (shape b) of
       None \<Rightarrow> Inl RuntimeError
     | Some sh \<Rightarrow> Inr (Tensor sh (map2 fmul (expand sh (shape a) (elems a))
                                             (expand sh (shape b) (elems b)))))"

text \<open>The product in place: as the product, and the result must have the shape of \<open>a\<close>.\<close>

definition tmul_inplace :: "tensor \<Rightarrow> tensor \<Rightarrow> error + tensor" where
  "tmul_inplace a b = (case tmul a b of
       Inl e \<Rightarrow> Inl e
     | Inr r \<Rightarrow> if shape r = shape a then Inr r else Inl RuntimeError)"

definition example_torch :: "(tensor, fl) torch" where
  "example_torch =
     \<lparr>t_nonzero_numel = nonzero_numel, t_shape = shape, t_view = tview,
      t_min = tmin, t_max = tmax, t_mean = tmean, t_std = tstd,
      t_min_dim = reduce_rows rmin, t_max_dim = reduce_rows rmax,
      s_abs = fabs, s_max = fmax, s_min = fmin, s_add = fadd, s_sub = fsub,
      s_times = (\<lambda>n a. fmul (Some n) a), s_literal = Some,
      t_scale = tscale, t_clamp = tclamp, t_round = tround,
      t_mul = tmul, t_imul = tmul_inplace\<rparr>"

text \<open>
  The conversion is stated for every \<open>pow2_round\<close>. Where it is evaluated on a concrete
  checkpoint, the instance is the function that returns the scale factor as it is.
\<close>

definition example_pow2_round :: "tensor \<Rightarrow> int \<Rightarrow> error + tensor" where
  "example_pow2_round fp_scale bits = Inr fp_scale"

section \<open>The training loop (train.py)\<close>

subsection \<open>The history of scores\<close>





subsection \<open>The calls out of the loop\<close>








subsection \<open>The loop\<close>





subsection \<open>Stages of an epoch\<close>






subsection \<open>An example run\<close>


section \<open>Properties of the converter\<close>

subsection \<open>Dictionaries, strings and sequencing\<close>

lemma bind_err_Inr_iff: "bind_err m f = Inr y \<longleftrightarrow> (\<exists>x. m = Inr x \<and> f x = Inr y)"
  by (cases m) (simp_all add: bind_err_def)

lemma bind_err_simps: "bind_err (Inl e) f = Inl e" "bind_err (Inr x) f = f x"
  by (simp_all add: bind_err_def)

lemma map_of_setitem: "map_of (setitem k v d) = (map_of d)(k \<mapsto> v)"
  by (induction d) (auto simp: fun_eq_iff)

lemma keys_setitem: "fst ` set (setitem k v d) = insert k (fst ` set d)"
  by (induction d) auto

lemma distinct_setitem: "distinct (map fst d) \<Longrightarrow> distinct (map fst (setitem k v d))"
  by (induction d) (auto simp: keys_setitem)

lemma map_of_filter_key: "map_of (filter (\<lambda>p. fst p \<noteq> k) d) = (map_of d)(k := None)"
  by (induction d) (auto simp: fun_eq_iff)

lemma delitem_Inr_iff: "delitem k d = Inr d' \<longleftrightarrow> map_of d k \<noteq> None \<and> d' = filter (\<lambda>p. fst p \<noteq> k) d"
  by (auto simp: delitem_def contains_def)

lemma delitem_Inr: "delitem k d = Inr d' \<Longrightarrow> map_of d' = (map_of d)(k := None)"
  by (simp add: delitem_Inr_iff map_of_filter_key)

lemma distinct_delitem: "delitem k d = Inr d' \<Longrightarrow> distinct (map fst d) \<Longrightarrow> distinct (map fst d')"
  by (auto simp: delitem_Inr_iff distinct_map_filter)

lemma getitem_Inr_iff: "getitem d k = Inr v \<longleftrightarrow> map_of d k = Some v"
  by (auto simp: getitem_def split: option.splits)


lemma convert_key_nodot:
  "rsplit1 k = None \<Longrightarrow> convert_key T W p a cs k ns = Inl ValueError"
  by (simp add: convert_key_def)

lemma convert_key_zero_point:
  "rsplit1 k = Some (operation, parameter) \<Longrightarrow>
   parameter = ''w_zero_point'' \<or> parameter = ''b_zero_point'' \<Longrightarrow>
   convert_key T W p a cs k ns =
     bind_err (getitem cs k) (\<lambda>t. if has_nonzero T t then Inl RuntimeError else delitem k ns)"
  by (auto simp add: convert_key_def)

lemma convert_key_plain:
  "rsplit1 k = Some (operation, parameter) \<Longrightarrow>
   parameter = ''weight'' \<or> parameter = ''bias'' \<Longrightarrow> \<not> quantized a \<Longrightarrow>
   convert_key T W p a cs k ns =
     (case split1 k of
        None \<Rightarrow> Inl ValueError
      | Some (modul, _) \<Rightarrow>
          bind_err (getitem cs k) (\<lambda>t.
          bind_err (if modul \<noteq> ''fc'' then sat_fn T a t else fc_sat_fn T t) (\<lambda>s.
          bind_err (if verbose a then verbose_stats T t else Inr ()) (\<lambda>_.
            Inr (setitem k
                   (clamp_round T (if modul \<noteq> ''fc'' then W else FC_CLAMP_BITS)
                      (t_scale T (s_times T (pow2 ((if modul \<noteq> ''fc'' then W else FC_CLAMP_BITS) - 1)) s) t))
                   ns)))))"
  by (auto simp add: convert_key_def Let_def split: option.splits)

lemma convert_key_wrapped:
  "rsplit1 k = Some (operation, parameter) \<Longrightarrow>
   parameter = ''weight'' \<or> parameter = ''bias'' \<Longrightarrow> quantized a \<Longrightarrow>
   convert_key T W p a cs k ns =
     (case rsplit1 operation of
        None \<Rightarrow> Inl ValueError
      | Some (modul, st) \<Rightarrow>
          if st = ''wrapped_module'' then
            bind_err (getitem cs k) (\<lambda>weights.
            bind_err (getitem cs (modul @ ''.'' @ take 1 parameter @ ''_scale'')) (\<lambda>fp_scale.
            bind_err
              (if modul \<noteq> ''fc''
               then bind_err (p fp_scale CONV_SCALE_BITS) (t_imul T weights)
               else bind_err (t_mul T weights fp_scale) (\<lambda>w. Inr (t_round T w)))
              (\<lambda>weights.
            bind_err
              (delitem k
                 (setitem (modul @ ''.'' @ parameter)
                    (clamp_round T (if modul \<noteq> ''fc'' then W else FC_CLAMP_BITS) weights) ns))
              (delitem (modul @ ''.'' @ take 1 parameter @ ''_scale'')))))
          else Inr ns)"
  by (auto simp add: convert_key_def Let_def split: option.splits)

lemma convert_key_base_b_q:
  "rsplit1 k = Some (operation, ''base_b_q'') \<Longrightarrow> convert_key T W p a cs k ns = delitem k ns"
  by (simp add: convert_key_def)

lemma convert_key_untouched:
  "rsplit1 k = Some (operation, parameter) \<Longrightarrow>
   parameter \<notin> {''w_zero_point'', ''b_zero_point'', ''weight'', ''bias'', ''base_b_q''} \<Longrightarrow>
   convert_key T W p a cs k ns = Inr ns"
  by (simp add: convert_key_def)


lemma rsplit1_Some_iff:
  "rsplit1 k = Some (a, b) \<longleftrightarrow> k = a @ ''.'' @ b \<and> CHR ''.'' \<notin> set b"
proof (induction k arbitrary: a b)
  case Nil
  then show ?case by simp
next
  case (Cons c cs)
  show ?case
  proof (cases "rsplit1 cs")
    case None
    have nodot: "CHR ''.'' \<notin> set cs"
    proof
      assume "CHR ''.'' \<in> set cs"
      then obtain ys zs where "cs = ys @ CHR ''.'' # zs" "CHR ''.'' \<notin> set zs"
        by (meson split_list_last)
      then have "rsplit1 cs = Some (ys, zs)" using Cons.IH[of ys zs] by simp
      with None show False by simp
    qed
    show ?thesis
    proof (cases "c = CHR ''.''")
      case True
      with None nodot show ?thesis
        by (cases a) auto
    next
      case False
      with None nodot show ?thesis
        by (cases a) auto
    qed
  next
    case (Some ab)
    obtain a' b' where ab: "ab = (a', b')" by (cases ab)
    from Some ab Cons.IH[of a' b'] have cs: "cs = a' @ ''.'' @ b'" "CHR ''.'' \<notin> set b'" by auto
    show ?thesis
    proof
      assume "rsplit1 (c # cs) = Some (a, b)"
      with Some ab have "a = c # a'" "b = b'" by auto
      with cs show "c # cs = a @ ''.'' @ b \<and> CHR ''.'' \<notin> set b" by simp
    next
      assume r: "c # cs = a @ ''.'' @ b \<and> CHR ''.'' \<notin> set b"
      show "rsplit1 (c # cs) = Some (a, b)"
      proof (cases a)
        case Nil
        with r have "cs = b" by simp
        with r cs show ?thesis by auto
      next
        case (Cons x xs)
        with r have "c = x" "cs = xs @ ''.'' @ b" by auto
        then have "rsplit1 cs = Some (xs, b)" using Cons.IH[of xs b] r by simp
        with Cons \<open>c = x\<close> show ?thesis by simp
      qed
    qed
  qed
qed

lemma split1_Some_iff:
  "split1 k = Some (a, b) \<longleftrightarrow> k = a @ ''.'' @ b \<and> CHR ''.'' \<notin> set a"
proof (induction k arbitrary: a)
  case Nil
  then show ?case by simp
next
  case (Cons c cs)
  show ?case
  proof (cases "c = CHR ''.''")
    case True
    then show ?thesis by (cases a) auto
  next
    case False
    then show ?thesis using Cons.IH by (cases a) auto
  qed
qed

lemma rsplit1_None_iff: "rsplit1 k = None \<longleftrightarrow> CHR ''.'' \<notin> set k"
proof
  assume n: "rsplit1 k = None"
  show "CHR ''.'' \<notin> set k"
  proof
    assume "CHR ''.'' \<in> set k"
    then obtain ys zs where "k = ys @ CHR ''.'' # zs" "CHR ''.'' \<notin> set zs"
      by (meson split_list_last)
    then have "rsplit1 k = Some (ys, zs)" by (simp add: rsplit1_Some_iff)
    with n show False by simp
  qed
next
  assume d: "CHR ''.'' \<notin> set k"
  show "rsplit1 k = None"
  proof (cases "rsplit1 k")
    case None then show ?thesis .
  next
    case (Some ab)
    then obtain a b where "rsplit1 k = Some (a, b)" by (cases ab) auto
    then have "k = a @ ''.'' @ b" by (simp add: rsplit1_Some_iff)
    with d show ?thesis by simp
  qed
qed

lemma split1_None_iff: "split1 k = None \<longleftrightarrow> CHR ''.'' \<notin> set k"
  by (induction k) auto


lemma last_component_dot: "rsplit1 k = Some (operation, parameter) \<Longrightarrow> last_component k = parameter"
  by (simp add: last_component_def)

lemma first_component_dot: "split1 k = Some (modul, rest) \<Longrightarrow> first_component k = modul"
  by (simp add: first_component_def)

text \<open>What one successful iteration in the non-quantized mode does to the new state.\<close>

lemma convert_key_plain_effect:
  assumes ok: "convert_key T W p a cs k ns = Inr ns'" and nq: "\<not> quantized a"
  shows "(last_component k \<in> {''w_zero_point'', ''b_zero_point'', ''base_b_q''} \<and>
            delitem k ns = Inr ns')
       \<or> (last_component k \<in> {''weight'', ''bias''} \<and>
            (\<exists>t s. map_of cs k = Some t \<and>
               (if first_component k = ''fc'' then get_const T t else sat_fn T a t) = Inr s \<and>
               ns' = setitem k
                 (clamp_round T (if first_component k = ''fc'' then FC_CLAMP_BITS else W)
                    (t_scale T (s_times T (pow2 ((if first_component k = ''fc'' then FC_CLAMP_BITS
                                                 else W) - 1)) s) t)) ns))
       \<or> (last_component k \<notin> {''w_zero_point'', ''b_zero_point'', ''base_b_q'', ''weight'', ''bias''} \<and>
            ns' = ns)"
proof (cases "rsplit1 k")
  case None
  with ok show ?thesis by (simp add: convert_key_nodot)
next
  case (Some ab)
  then obtain operation parameter where r: "rsplit1 k = Some (operation, parameter)"
    by (cases ab) auto
  have lc: "last_component k = parameter" using r by (rule last_component_dot)
  consider (zp) "parameter = ''w_zero_point'' \<or> parameter = ''b_zero_point''"
    | (wb) "parameter = ''weight'' \<or> parameter = ''bias''"
    | (bq) "parameter = ''base_b_q''"
    | (other) "parameter \<notin> {''w_zero_point'', ''b_zero_point'', ''weight'', ''bias'', ''base_b_q''}"
    by auto
  then show ?thesis
  proof cases
    case zp
    from ok have "delitem k ns = Inr ns'"
      unfolding convert_key_zero_point[OF r zp]
      by (auto simp: bind_err_Inr_iff split: if_splits)
    with zp lc show ?thesis by auto
  next
    case wb
    from ok obtain modul rest where sp: "split1 k = Some (modul, rest)"
      unfolding convert_key_plain[OF r wb nq] by (auto split: option.splits)
    have fc: "first_component k = modul" using sp by (rule first_component_dot)
    from ok obtain t s where
      "map_of cs k = Some t" "(if modul \<noteq> ''fc'' then sat_fn T a t else fc_sat_fn T t) = Inr s"
      "ns' = setitem k (clamp_round T (if modul \<noteq> ''fc'' then W else FC_CLAMP_BITS)
          (t_scale T (s_times T (pow2 ((if modul \<noteq> ''fc'' then W else FC_CLAMP_BITS) - 1)) s) t)) ns"
      unfolding convert_key_plain[OF r wb nq] sp
      by (auto simp: bind_err_Inr_iff getitem_Inr_iff)
    then have "\<exists>t s. map_of cs k = Some t \<and>
               (if first_component k = ''fc'' then get_const T t else sat_fn T a t) = Inr s \<and>
               ns' = setitem k
                 (clamp_round T (if first_component k = ''fc'' then FC_CLAMP_BITS else W)
                    (t_scale T (s_times T (pow2 ((if first_component k = ''fc'' then FC_CLAMP_BITS
                                                 else W) - 1)) s) t)) ns"
      unfolding fc by (cases "modul = ''fc''") (auto simp: fc_sat_fn_def)
    with wb lc show ?thesis by auto
  next
    case bq
    from ok have "delitem k ns = Inr ns'"
      using convert_key_base_b_q[of k operation T W p a cs ns] r bq by simp
    with bq lc show ?thesis by auto
  next
    case other
    from ok have "ns' = ns" using convert_key_untouched[OF r other, of T W p a cs ns] by simp
    with other lc show ?thesis by auto
  qed
qed


lemma convert_key_plain_other:
  assumes "convert_key T W p a cs k ns = Inr ns'" "\<not> quantized a" "k' \<noteq> k"
  shows "map_of ns' k' = map_of ns k'"
  using convert_key_plain_effect[OF assms(1,2)] assms(3)
  by (auto simp: map_of_setitem dest!: delitem_Inr)

lemma convert_loop_plain_other:
  assumes "convert_loop T W p a cs ks ns = Inr ns'" "\<not> quantized a" "k' \<notin> set ks"
  shows "map_of ns' k' = map_of ns k'"
  using assms
proof (induction ks arbitrary: ns)
  case Nil
  then show ?case by simp
next
  case (Cons k ks)
  from Cons.prems(1) obtain ns1 where
    s: "convert_key T W p a cs k ns = Inr ns1" and l: "convert_loop T W p a cs ks ns1 = Inr ns'"
    by (auto split: sum.splits)
  from Cons.prems(3) have "k' \<noteq> k" "k' \<notin> set ks" by auto
  then show ?case
    using Cons.IH[OF l Cons.prems(2)] convert_key_plain_other[OF s Cons.prems(2)] by simp
qed

lemma convert_loop_plain_self:
  assumes "convert_loop T W p a cs ks ns = Inr ns'" "\<not> quantized a" "distinct ks" "k \<in> set ks"
    "last_component k \<in> {''weight'', ''bias''}" "map_of cs k = Some t"
  shows "\<exists>s. (if first_component k = ''fc'' then get_const T t else sat_fn T a t) = Inr s \<and>
     map_of ns' k = Some (clamp_round T (if first_component k = ''fc'' then FC_CLAMP_BITS else W)
        (t_scale T (s_times T (pow2 ((if first_component k = ''fc'' then FC_CLAMP_BITS else W) - 1)) s) t))"
  using assms(1,3,4)
proof (induction ks arbitrary: ns)
  case Nil
  then show ?case by simp
next
  case (Cons x ks)
  from Cons.prems(1) obtain ns1 where
    s: "convert_key T W p a cs x ns = Inr ns1" and l: "convert_loop T W p a cs ks ns1 = Inr ns'"
    by (auto split: sum.splits)
  show ?case
  proof (cases "x = k")
    case True
    with Cons.prems(2) have "k \<notin> set ks" by simp
    then have same: "map_of ns' k = map_of ns1 k"
      using convert_loop_plain_other[OF l assms(2)] by simp
    from convert_key_plain_effect[OF s assms(2)] True assms(5,6)
    obtain s' where "(if first_component k = ''fc'' then get_const T t else sat_fn T a t) = Inr s'"
      "ns1 = setitem k (clamp_round T (if first_component k = ''fc'' then FC_CLAMP_BITS else W)
        (t_scale T (s_times T (pow2 ((if first_component k = ''fc'' then FC_CLAMP_BITS else W) - 1)) s') t)) ns"
      by auto
    with same show ?thesis by (auto simp: map_of_setitem)
  next
    case False
    with Cons.prems have "distinct ks" "k \<in> set ks" by auto
    then show ?thesis using Cons.IH[OF l] by simp
  qed
qed

lemma convert_state_Inr:
  assumes "convert_state T W p a cp = Inr (cp', ns)"
  shows "\<exists>sd. map_of cp' ''state_dict'' = Some (StateDict sd) \<and>
     convert_loop T W p a sd (map fst sd) sd = Inr ns \<and>
     (if quantized a then delitem ''quantizer_metadata'' cp = Inr cp' else cp' = cp)"
proof -
  from assms obtain c1 where
    c1: "(if quantized a then
            (if \<not> contains cp ''quantizer_metadata'' then Inl RuntimeError
             else delitem ''quantizer_metadata'' cp)
          else Inr cp) = Inr c1"
    and rest: "(if \<not> contains c1 ''state_dict'' then Inl RuntimeError
          else bind_err (getitem c1 ''state_dict'') (\<lambda>v.
            case v of
              Other _ \<Rightarrow> Inl AttributeError
            | StateDict checkpoint_state \<Rightarrow>
                bind_err (convert_loop T W p a checkpoint_state (map fst checkpoint_state)
                            checkpoint_state)
                  (\<lambda>new_checkpoint_state. Inr (c1, new_checkpoint_state)))) = Inr (cp', ns)"
    unfolding convert_state_def bind_err_Inr_iff by blast
  from rest obtain v where v: "map_of c1 ''state_dict'' = Some v"
    and rest2: "(case v of
              Other _ \<Rightarrow> Inl AttributeError
            | StateDict checkpoint_state \<Rightarrow>
                bind_err (convert_loop T W p a checkpoint_state (map fst checkpoint_state)
                            checkpoint_state)
                  (\<lambda>new_checkpoint_state. Inr (c1, new_checkpoint_state))) = Inr (cp', ns)"
    by (auto simp: bind_err_Inr_iff getitem_Inr_iff split: if_splits)
  from rest2 obtain sd where sd: "v = StateDict sd"
    and l: "convert_loop T W p a sd (map fst sd) sd = Inr ns" and eq: "c1 = cp'"
    by (cases v) (auto simp: bind_err_Inr_iff)
  from c1 eq have "(if quantized a then delitem ''quantizer_metadata'' cp = Inr cp' else cp' = cp)"
    by (auto split: if_splits)
  with v sd l eq show ?thesis by auto
qed


subsection \<open>The checkpoint dictionary\<close>

lemma contains_setitem: "contains (setitem k v d) k' \<longleftrightarrow> k' = k \<or> contains d k'"
  by (simp add: contains_def map_of_setitem)

lemma contains_filter_key: "contains (filter (\<lambda>p. fst p \<noteq> k) d) k' \<longleftrightarrow> k' \<noteq> k \<and> contains d k'"
  by (simp add: contains_def map_of_filter_key)

lemma convert_state_no_state_dict:
  assumes "\<not> contains cp ''state_dict''"
  shows "convert_state T W p a cp = Inl RuntimeError"
proof (cases "quantized a \<and> contains cp ''quantizer_metadata''")
  case True
  then have "delitem ''quantizer_metadata'' cp = Inr (filter (\<lambda>p. fst p \<noteq> ''quantizer_metadata'') cp)"
    by (simp add: delitem_def)
  moreover have "\<not> contains (filter (\<lambda>p. fst p \<noteq> ''quantizer_metadata'') cp) ''state_dict''"
    using assms by (simp add: contains_filter_key)
  ultimately show ?thesis using True by (simp add: convert_state_def bind_err_simps)
next
  case False
  then show ?thesis using assms by (auto simp: convert_state_def bind_err_simps)
qed

lemma convert_state_no_metadata:
  assumes "quantized a" "\<not> contains cp ''quantizer_metadata''"
  shows "convert_state T W p a cp = Inl RuntimeError"
  using assms by (simp add: convert_state_def bind_err_simps)

lemma convert_checkpoint_Inl:
  "convert_state T W p a cp = Inl e \<Longrightarrow> convert_checkpoint T W p a cp = Inl e"
  by (simp add: convert_checkpoint_def bind_err_simps)

lemma convert_checkpoint_Inr:
  assumes "convert_checkpoint T W p a cp = Inr out"
  shows "\<exists>cp' ns. convert_state T W p a cp = Inr (cp', ns) \<and>
     out = (if \<not> embedded a
            then \<lparr>saved = Some (setitem ''state_dict'' (StateDict ns) cp'), printed = []\<rparr>
            else \<lparr>saved = None,
                  printed = concat (map (\<lambda>(k, t). [define_line k, AsInt t]) ns)\<rparr>)"
  using assms
  by (auto simp: convert_checkpoint_def bind_err_Inr_iff split: if_splits)

lemma filter_text_dump:
  "filter is_Text (concat (map (\<lambda>(k, t). [define_line k, AsInt t]) ns)) =
   map (\<lambda>(k, t). define_line k) ns"
  by (induction ns) (auto simp: define_line_def)

lemma last_component_append:
  "CHR ''.'' \<notin> set b \<Longrightarrow> last_component (a @ ''.'' @ b) = b"
  using rsplit1_Some_iff[of "a @ ''.'' @ b" a b] by (simp add: last_component_def)

lemma convert_key_zero_point_ok:
  assumes "convert_key T W p a cs k ns = Inr ns'"
    and "last_component k = ''w_zero_point'' \<or> last_component k = ''b_zero_point''"
  shows "\<exists>t. map_of cs k = Some t \<and> \<not> has_nonzero T t \<and> delitem k ns = Inr ns'"
proof (cases "rsplit1 k")
  case None
  with assms(1) show ?thesis by (simp add: convert_key_nodot)
next
  case (Some ab)
  then obtain operation parameter where r: "rsplit1 k = Some (operation, parameter)"
    by (cases ab) auto
  with assms(2) have zp: "parameter = ''w_zero_point'' \<or> parameter = ''b_zero_point''"
    by (simp add: last_component_def)
  from assms(1) show ?thesis
    unfolding convert_key_zero_point[OF r zp]
    by (auto simp: bind_err_Inr_iff getitem_Inr_iff split: if_splits)
qed

lemma convert_key_wrapped_module:
  assumes "rsplit1 k = Some (operation, parameter)"
    and "parameter = ''weight'' \<or> parameter = ''bias''" and "quantized a"
    and "rsplit1 operation = Some (modul, ''wrapped_module'')"
    and "convert_key T W p a cs k ns = Inr ns'"
  shows "\<exists>w n1. map_of cs (modul @ ''.'' @ take 1 parameter @ ''_scale'') \<noteq> None \<and>
     delitem k (setitem (modul @ ''.'' @ parameter)
        (clamp_round T (if modul = ''fc'' then FC_CLAMP_BITS else W) w) ns) = Inr n1 \<and>
     delitem (modul @ ''.'' @ take 1 parameter @ ''_scale'') n1 = Inr ns'"
proof -
  let ?scale = "modul @ ''.'' @ take 1 parameter @ ''_scale''"
  have eq: "convert_key T W p a cs k ns =
      bind_err (getitem cs k) (\<lambda>weights.
            bind_err (getitem cs ?scale) (\<lambda>fp_scale.
            bind_err
              (if modul \<noteq> ''fc''
               then bind_err (p fp_scale CONV_SCALE_BITS) (t_imul T weights)
               else bind_err (t_mul T weights fp_scale) (\<lambda>w. Inr (t_round T w)))
              (\<lambda>weights.
            bind_err
              (delitem k
                 (setitem (modul @ ''.'' @ parameter)
                    (clamp_round T (if modul \<noteq> ''fc'' then W else FC_CLAMP_BITS) weights) ns))
              (delitem ?scale))))"
    using assms(4) by (simp add: convert_key_wrapped[OF assms(1,2,3)])
  from assms(5)[unfolded eq] obtain t where
    s1: "bind_err (getitem cs ?scale) (\<lambda>fp_scale.
            bind_err
              (if modul \<noteq> ''fc''
               then bind_err (p fp_scale CONV_SCALE_BITS) (t_imul T t)
               else bind_err (t_mul T t fp_scale) (\<lambda>w. Inr (t_round T w)))
              (\<lambda>weights.
            bind_err
              (delitem k
                 (setitem (modul @ ''.'' @ parameter)
                    (clamp_round T (if modul \<noteq> ''fc'' then W else FC_CLAMP_BITS) weights) ns))
              (delitem ?scale))) = Inr ns'"
    unfolding bind_err_Inr_iff[of "getitem cs k"] by blast
  then obtain fp where fp: "getitem cs ?scale = Inr fp" and
    s2: "bind_err
              (if modul \<noteq> ''fc''
               then bind_err (p fp CONV_SCALE_BITS) (t_imul T t)
               else bind_err (t_mul T t fp) (\<lambda>w. Inr (t_round T w)))
              (\<lambda>weights.
            bind_err
              (delitem k
                 (setitem (modul @ ''.'' @ parameter)
                    (clamp_round T (if modul \<noteq> ''fc'' then W else FC_CLAMP_BITS) weights) ns))
              (delitem ?scale)) = Inr ns'"
    unfolding bind_err_Inr_iff[of "getitem cs ?scale"] by blast
  from s2 obtain w where
    s3: "bind_err
              (delitem k
                 (setitem (modul @ ''.'' @ parameter)
                    (clamp_round T (if modul \<noteq> ''fc'' then W else FC_CLAMP_BITS) w) ns))
              (delitem ?scale) = Inr ns'"
    unfolding bind_err_Inr_iff[of "if modul \<noteq> ''fc''
               then bind_err (p fp CONV_SCALE_BITS) (t_imul T t)
               else bind_err (t_mul T t fp) (\<lambda>w. Inr (t_round T w))"] by blast
  then obtain n1 where
    d1: "delitem k (setitem (modul @ ''.'' @ parameter)
                    (clamp_round T (if modul \<noteq> ''fc'' then W else FC_CLAMP_BITS) w) ns) = Inr n1"
    and d2: "delitem ?scale n1 = Inr ns'"
    unfolding bind_err_Inr_iff by blast
  have cb: "(if modul \<noteq> ''fc'' then W else FC_CLAMP_BITS) = (if modul = ''fc'' then FC_CLAMP_BITS else W)"
    by simp
  from fp have "map_of cs ?scale \<noteq> None" by (simp add: getitem_Inr_iff)
  with d1 d2 show ?thesis unfolding cb by blast
qed

text \<open>What one successful iteration in the quantized mode does to the new state.\<close>

lemma convert_key_quantized_effect:
  assumes ok: "convert_key T W p a cs k ns = Inr ns'" and q: "quantized a"
  shows "(last_component k \<in> {''w_zero_point'', ''b_zero_point'', ''base_b_q''} \<and>
            delitem k ns = Inr ns')
       \<or> (\<exists>modul par w.
            par \<in> {''weight'', ''bias''} \<and> k = modul @ ''.wrapped_module.'' @ par \<and>
            map_of cs (modul @ ''.'' @ take 1 par @ ''_scale'') \<noteq> None \<and>
            map_of ns' =
              (map_of ns)(modul @ ''.'' @ par \<mapsto>
                   clamp_round T (if modul = ''fc'' then FC_CLAMP_BITS else W) w,
                 k := None, modul @ ''.'' @ take 1 par @ ''_scale'' := None))
       \<or> (last_component k \<notin> {''w_zero_point'', ''b_zero_point'', ''base_b_q''} \<and> ns' = ns)"
    (is "?D \<or> ?Wr \<or> ?S")
proof (cases "rsplit1 k")
  case None
  with ok show ?thesis by (simp add: convert_key_nodot)
next
  case (Some ab)
  then obtain operation parameter where r: "rsplit1 k = Some (operation, parameter)"
    by (cases ab) auto
  have lc: "last_component k = parameter" using r by (rule last_component_dot)
  have k: "k = operation @ ''.'' @ parameter" using r by (simp add: rsplit1_Some_iff)
  consider (zp) "parameter = ''w_zero_point'' \<or> parameter = ''b_zero_point''"
    | (wb) "parameter = ''weight'' \<or> parameter = ''bias''"
    | (bq) "parameter = ''base_b_q''"
    | (other) "parameter \<notin> {''w_zero_point'', ''b_zero_point'', ''weight'', ''bias'', ''base_b_q''}"
    by auto
  then show ?thesis
  proof cases
    case zp
    from ok have "delitem k ns = Inr ns'"
      unfolding convert_key_zero_point[OF r zp]
      by (auto simp: bind_err_Inr_iff split: if_splits)
    with zp lc have ?D by auto
    then show ?thesis ..
  next
    case wb
    from ok obtain modul st where ro: "rsplit1 operation = Some (modul, st)"
      unfolding convert_key_wrapped[OF r wb q] by (cases "rsplit1 operation") auto
    have op: "operation = modul @ ''.'' @ st" using ro by (simp add: rsplit1_Some_iff)
    show ?thesis
    proof (cases "st = ''wrapped_module''")
      case False
      with ok have "ns' = ns" unfolding convert_key_wrapped[OF r wb q] ro by simp
      with wb lc have ?S by auto
      then show ?thesis by simp
    next
      case True
      let ?scale = "modul @ ''.'' @ take 1 parameter @ ''_scale''"
      from convert_key_wrapped_module[OF r wb q ro[unfolded True] ok] obtain w n1 where
        sc: "map_of cs ?scale \<noteq> None"
        and d1: "delitem k (setitem (modul @ ''.'' @ parameter)
                    (clamp_round T (if modul = ''fc'' then FC_CLAMP_BITS else W) w) ns) = Inr n1"
        and d2: "delitem ?scale n1 = Inr ns'"
        by blast
      have m: "map_of ns' =
              (map_of ns)(modul @ ''.'' @ parameter \<mapsto>
                   clamp_round T (if modul = ''fc'' then FC_CLAMP_BITS else W) w,
                 k := None, ?scale := None)"
        unfolding delitem_Inr[OF d2] delitem_Inr[OF d1] map_of_setitem ..
      have kk: "k = modul @ ''.wrapped_module.'' @ parameter"
        unfolding k op True by simp
      have ?Wr
        apply (rule exI[of _ modul], rule exI[of _ parameter], rule exI[of _ w])
        using wb kk sc m by simp
      then show ?thesis by simp
    qed
  next
    case bq
    from ok have "delitem k ns = Inr ns'"
      using convert_key_base_b_q[of k operation T W p a cs ns] r bq by simp
    with bq lc have ?D by auto
    then show ?thesis ..
  next
    case other
    from ok have "ns' = ns" using convert_key_untouched[OF r other, of T W p a cs ns] by simp
    with other lc have ?S by auto
    then show ?thesis by simp
  qed
qed

subsection \<open>Entries that are deleted stay deleted\<close>

lemma convert_key_absent:
  assumes ok: "convert_key T W p a cs k ns = Inr ns'"
    and none: "map_of ns K = None"
    and lc: "last_component K \<noteq> ''weight''" "last_component K \<noteq> ''bias''"
  shows "map_of ns' K = None"
proof (cases "quantized a")
  case False
  from convert_key_plain_effect[OF ok False] show ?thesis
  proof (elim disjE conjE exE)
    assume "delitem k ns = Inr ns'"
    from delitem_Inr[OF this] none show ?thesis by simp
  next
    fix t s
    assume "last_component k \<in> {''weight'', ''bias''}"
      and n: "ns' = setitem k
                 (clamp_round T (if first_component k = ''fc'' then FC_CLAMP_BITS else W)
                    (t_scale T (s_times T (pow2 ((if first_component k = ''fc'' then FC_CLAMP_BITS
                                                 else W) - 1)) s) t)) ns"
    with lc have "K \<noteq> k" by auto
    with n none show ?thesis by (simp add: map_of_setitem)
  next
    assume "ns' = ns"
    with none show ?thesis by simp
  qed
next
  case True
  from convert_key_quantized_effect[OF ok True] show ?thesis
  proof (elim disjE conjE exE)
    assume "delitem k ns = Inr ns'"
    from delitem_Inr[OF this] none show ?thesis by simp
  next
    fix modul par w
    assume par: "par \<in> {''weight'', ''bias''}"
      and m: "map_of ns' =
              (map_of ns)(modul @ ''.'' @ par \<mapsto>
                   clamp_round T (if modul = ''fc'' then FC_CLAMP_BITS else W) w,
                 k := None, modul @ ''.'' @ take 1 par @ ''_scale'' := None)"
    from par have "CHR ''.'' \<notin> set par" by auto
    then have "last_component (modul @ ''.'' @ par) = par" by (rule last_component_append)
    with par lc have "K \<noteq> modul @ ''.'' @ par" by auto
    with m none show ?thesis by simp
  next
    assume "ns' = ns"
    with none show ?thesis by simp
  qed
qed

lemma convert_loop_absent:
  assumes "convert_loop T W p a cs ks ns = Inr ns'"
    and "map_of ns K = None"
    and "last_component K \<noteq> ''weight''" "last_component K \<noteq> ''bias''"
  shows "map_of ns' K = None"
  using assms(1,2)
proof (induction ks arbitrary: ns)
  case Nil
  then show ?case by simp
next
  case (Cons x ks)
  from Cons.prems(1) obtain ns1 where
    s: "convert_key T W p a cs x ns = Inr ns1" and l: "convert_loop T W p a cs ks ns1 = Inr ns'"
    by (auto split: sum.splits)
  from convert_key_absent[OF s Cons.prems(2) assms(3,4)] Cons.IH[OF l] show ?case by simp
qed

lemma convert_key_deletes:
  assumes ok: "convert_key T W p a cs k ns = Inr ns'"
    and lc: "last_component k \<in> {''w_zero_point'', ''b_zero_point'', ''base_b_q''}"
  shows "map_of ns' k = None"
proof (cases "quantized a")
  case False
  from convert_key_plain_effect[OF ok False] lc have "delitem k ns = Inr ns'" by auto
  from delitem_Inr[OF this] show ?thesis by simp
next
  case True
  from convert_key_quantized_effect[OF ok True] lc
  have "delitem k ns = Inr ns' \<or> (\<exists>modul par. par \<in> {''weight'', ''bias''} \<and>
      k = modul @ ''.wrapped_module.'' @ par)"
    by blast
  then show ?thesis
  proof (elim disjE exE conjE)
    assume "delitem k ns = Inr ns'"
    from delitem_Inr[OF this] show ?thesis by simp
  next
    fix modul par
    assume par: "par \<in> {''weight'', ''bias''}" and k: "k = modul @ ''.wrapped_module.'' @ par"
    from par have "CHR ''.'' \<notin> set par" by auto
    from last_component_append[OF this, of "modul @ ''.wrapped_module''"] k
    have "last_component k = par" by simp
    with par lc show ?thesis by auto
  qed
qed

lemma convert_loop_deletes:
  assumes "convert_loop T W p a cs ks ns = Inr ns'"
    and lc: "last_component K \<in> {''w_zero_point'', ''b_zero_point'', ''base_b_q''}"
    and "K \<in> set ks \<or> map_of ns K = None"
  shows "map_of ns' K = None"
  using assms(1,3)
proof (induction ks arbitrary: ns)
  case Nil
  then show ?case by simp
next
  case (Cons x ks)
  from Cons.prems(1) obtain ns1 where
    s: "convert_key T W p a cs x ns = Inr ns1" and l: "convert_loop T W p a cs ks ns1 = Inr ns'"
    by (auto split: sum.splits)
  from lc have nwb: "last_component K \<noteq> ''weight''" "last_component K \<noteq> ''bias''" by auto
  have "K \<in> set ks \<or> map_of ns1 K = None"
  proof (cases "x = K")
    case True
    with convert_key_deletes[OF s] lc show ?thesis by simp
  next
    case False
    with Cons.prems(2) convert_key_absent[OF s _ nwb] show ?thesis by auto
  qed
  from Cons.IH[OF l this] show ?case .
qed

lemma convert_loop_zero_points:
  assumes "convert_loop T W p a cs ks ns = Inr ns'"
    and "last_component K = ''w_zero_point'' \<or> last_component K = ''b_zero_point''"
    and "K \<in> set ks"
  shows "\<exists>t. map_of cs K = Some t \<and> \<not> has_nonzero T t"
  using assms(1,3)
proof (induction ks arbitrary: ns)
  case Nil
  then show ?case by simp
next
  case (Cons x ks)
  from Cons.prems(1) obtain ns1 where
    s: "convert_key T W p a cs x ns = Inr ns1" and l: "convert_loop T W p a cs ks ns1 = Inr ns'"
    by (auto split: sum.splits)
  show ?case
  proof (cases "x = K")
    case True
    with convert_key_zero_point_ok[OF s] assms(2) show ?thesis by blast
  next
    case False
    with Cons.prems(2) Cons.IH[OF l] show ?thesis by simp
  qed
qed

lemma convert_state_loop:
  assumes "convert_state T W p a cp = Inr (cp', ns)"
  shows "\<exists>sd. map_of cp ''state_dict'' = Some (StateDict sd) \<and>
     convert_loop T W p a sd (map fst sd) sd = Inr ns"
proof -
  from convert_state_Inr[OF assms] obtain sd where
    m: "map_of cp' ''state_dict'' = Some (StateDict sd)"
    and l: "convert_loop T W p a sd (map fst sd) sd = Inr ns"
    and c: "if quantized a then delitem ''quantizer_metadata'' cp = Inr cp' else cp' = cp"
    by blast
  have "map_of cp' ''state_dict'' = map_of cp ''state_dict''"
  proof (cases "quantized a")
    case True
    with c have "delitem ''quantizer_metadata'' cp = Inr cp'" by simp
    from delitem_Inr[OF this] show ?thesis by simp
  next
    case False
    with c show ?thesis by simp
  qed
  with m l show ?thesis by auto
qed

subsection \<open>Wrapped modules and their scale factors\<close>

lemma dotted_eq:
  assumes "a @ ''.'' @ b = a' @ ''.'' @ b'" "CHR ''.'' \<notin> set b" "CHR ''.'' \<notin> set b'"
  shows "a = a' \<and> b = b'"
proof -
  have 1: "rsplit1 (a @ ''.'' @ b) = Some (a, b)"
    unfolding rsplit1_Some_iff using assms(2) by blast
  have 2: "rsplit1 (a' @ ''.'' @ b') = Some (a', b')"
    unfolding rsplit1_Some_iff using assms(3) by blast
  have "rsplit1 (a @ ''.'' @ b) = rsplit1 (a' @ ''.'' @ b')"
    using assms(1) by (rule arg_cong)
  then have "Some (a, b) = Some (a', b')" unfolding 1 2 .
  then show ?thesis by blast
qed


lemma last_component_scale:
  assumes "par \<in> {''weight'', ''bias''}"
  shows "last_component (modul @ ''.'' @ take 1 par @ ''_scale'') = take 1 par @ ''_scale''"
proof -
  have "take 1 par @ ''_scale'' = ''w_scale'' \<or> take 1 par @ ''_scale'' = ''b_scale''"
    using assms by auto
  then have "CHR ''.'' \<notin> set (take 1 par @ ''_scale'')" by auto
  then show ?thesis by (rule last_component_append)
qed

lemma last_component_stored:
  assumes "par \<in> {''weight'', ''bias''}"
  shows "last_component (modul @ ''.'' @ par) = par"
proof -
  have "CHR ''.'' \<notin> set par" using assms by auto
  then show ?thesis by (rule last_component_append)
qed

lemma last_component_wrapped:
  assumes "par \<in> {''weight'', ''bias''}"
  shows "last_component (modul @ ''.wrapped_module.'' @ par) = par"
proof -
  have "last_component ((modul @ ''.wrapped_module'') @ ''.'' @ par) = par"
    using assms by (rule last_component_stored)
  then show ?thesis by simp
qed

lemma wrapped_key_eq:
  assumes "modul @ ''.wrapped_module.'' @ par = modul' @ ''.wrapped_module.'' @ par'"
    "par \<in> {''weight'', ''bias''}" "par' \<in> {''weight'', ''bias''}"
  shows "modul = modul' \<and> par = par'"
proof -
  have "(modul @ ''.wrapped_module'') @ ''.'' @ par = (modul' @ ''.wrapped_module'') @ ''.'' @ par'"
    using assms(1) by simp
  moreover have "CHR ''.'' \<notin> set par" using assms(2) by auto
  moreover have "CHR ''.'' \<notin> set par'" using assms(3) by auto
  ultimately have "modul @ ''.wrapped_module'' = modul' @ ''.wrapped_module'' \<and> par = par'"
    by (rule dotted_eq)
  then show ?thesis by simp
qed

text \<open>The iteration for a wrapped entry removes the scale and stores the folded tensor.\<close>

lemma convert_key_wrapped_self:
  assumes ok: "convert_key T W p a cs (modul @ ''.wrapped_module.'' @ par) ns = Inr ns'"
    and q: "quantized a" and par: "par \<in> {''weight'', ''bias''}"
  shows "map_of cs (modul @ ''.'' @ take 1 par @ ''_scale'') \<noteq> None \<and>
         map_of ns' (modul @ ''.'' @ take 1 par @ ''_scale'') = None \<and>
         (\<exists>w. map_of ns' (modul @ ''.'' @ par) =
               Some (clamp_round T (if modul = ''fc'' then FC_CLAMP_BITS else W) w))"
proof -
  let ?k = "modul @ ''.wrapped_module.'' @ par"
  let ?scale = "modul @ ''.'' @ take 1 par @ ''_scale''"
  have nd: "CHR ''.'' \<notin> set par" using par by auto
  have "rsplit1 ((modul @ ''.wrapped_module'') @ ''.'' @ par) = Some (modul @ ''.wrapped_module'', par)"
    using nd unfolding rsplit1_Some_iff by simp
  then have r: "rsplit1 ?k = Some (modul @ ''.wrapped_module'', par)" by simp
  have ro: "rsplit1 (modul @ ''.wrapped_module'') = Some (modul, ''wrapped_module'')"
    unfolding rsplit1_Some_iff by simp
  from par have wb: "par = ''weight'' \<or> par = ''bias''" by simp
  from convert_key_wrapped_module[OF r wb q ro ok] obtain w n1 where
    sc: "map_of cs ?scale \<noteq> None"
    and d1: "delitem ?k (setitem (modul @ ''.'' @ par)
                  (clamp_round T (if modul = ''fc'' then FC_CLAMP_BITS else W) w) ns) = Inr n1"
    and d2: "delitem ?scale n1 = Inr ns'"
    by blast
  have m: "map_of ns' =
            (map_of ns)(modul @ ''.'' @ par \<mapsto>
                 clamp_round T (if modul = ''fc'' then FC_CLAMP_BITS else W) w,
               ?k := None, ?scale := None)"
    unfolding delitem_Inr[OF d2] delitem_Inr[OF d1] map_of_setitem ..
  have "last_component (modul @ ''.'' @ par) \<noteq> last_component ?k \<or> modul @ ''.'' @ par \<noteq> ?k"
    by simp
  have n1: "modul @ ''.'' @ par \<noteq> ?k" by simp
  have "last_component (modul @ ''.'' @ par) \<noteq> last_component ?scale"
    unfolding last_component_stored[OF par] last_component_scale[OF par] using wb by auto
  then have n2: "modul @ ''.'' @ par \<noteq> ?scale" by auto
  have "map_of ns' ?scale = None" unfolding m by simp
  moreover have "map_of ns' (modul @ ''.'' @ par) =
               Some (clamp_round T (if modul = ''fc'' then FC_CLAMP_BITS else W) w)"
    unfolding m using n1 n2 by simp
  ultimately show ?thesis using sc by blast
qed

text \<open>
  What a successful iteration in the quantized mode does to the entry \<open>modul.par\<close> of the
  new state: nothing, or it stores a folded tensor there, or it deletes it, and this only
  when that key is itself the entry of a wrapped module.
\<close>

lemma convert_key_quantized_at:
  assumes ok: "convert_key T W p a cs k ns = Inr ns'" and q: "quantized a"
    and par: "par \<in> {''weight'', ''bias''}"
  shows "map_of ns' (modul @ ''.'' @ par) = map_of ns (modul @ ''.'' @ par)
       \<or> (\<exists>w. map_of ns' (modul @ ''.'' @ par) =
               Some (clamp_round T (if modul = ''fc'' then FC_CLAMP_BITS else W) w))
       \<or> (map_of ns' (modul @ ''.'' @ par) = None \<and> (\<exists>m. modul = m @ ''.wrapped_module''))"
    (is "?same \<or> ?stored \<or> ?gone")
proof -
  let ?K = "modul @ ''.'' @ par"
  have lK: "last_component ?K = par" using par by (rule last_component_stored)
  from convert_key_quantized_effect[OF ok q] show ?thesis
  proof (elim disjE conjE exE)
    assume l: "last_component k \<in> {''w_zero_point'', ''b_zero_point'', ''base_b_q''}"
      and d: "delitem k ns = Inr ns'"
    from l lK par have "k \<noteq> ?K" by auto
    with delitem_Inr[OF d] have ?same by simp
    then show ?thesis ..
  next
    fix modul' par' w
    assume p': "par' \<in> {''weight'', ''bias''}"
      and k: "k = modul' @ ''.wrapped_module.'' @ par'"
      and m: "map_of ns' =
              (map_of ns)(modul' @ ''.'' @ par' \<mapsto>
                   clamp_round T (if modul' = ''fc'' then FC_CLAMP_BITS else W) w,
                 k := None, modul' @ ''.'' @ take 1 par' @ ''_scale'' := None)"
    let ?sc = "modul' @ ''.'' @ take 1 par' @ ''_scale''"
    have "last_component ?sc \<noteq> par"
      unfolding last_component_scale[OF p'] using par p' by auto
    with lK have nsc: "?K \<noteq> ?sc" by auto
    show ?thesis
    proof (cases "?K = k")
      case True
      then have "modul @ ''.'' @ par = (modul' @ ''.wrapped_module'') @ ''.'' @ par'"
        unfolding k by simp
      moreover have "CHR ''.'' \<notin> set par" using par by auto
      moreover have "CHR ''.'' \<notin> set par'" using p' by auto
      ultimately have "modul = modul' @ ''.wrapped_module'' \<and> par = par'" by (rule dotted_eq)
      then have "\<exists>m. modul = m @ ''.wrapped_module''" by blast
      moreover have "map_of ns' ?K = None" unfolding m using True nsc by simp
      ultimately have ?gone by simp
      then show ?thesis by simp
    next
      case nk: False
      show ?thesis
      proof (cases "?K = modul' @ ''.'' @ par'")
        case True
        moreover have "CHR ''.'' \<notin> set par" using par by auto
        moreover have "CHR ''.'' \<notin> set par'" using p' by auto
        ultimately have e: "modul = modul' \<and> par = par'" by (rule dotted_eq)
        have "map_of ns' ?K = Some (clamp_round T (if modul' = ''fc'' then FC_CLAMP_BITS else W) w)"
          unfolding m using nk nsc True by simp
        with e have ?stored by blast
        then show ?thesis by simp
      next
        case False
        have ?same unfolding m using nk nsc False by simp
        then show ?thesis ..
      qed
    qed
  next
    assume "ns' = ns"
    then have ?same by simp
    then show ?thesis ..
  qed
qed

lemma convert_loop_stored_or_absent:
  assumes "convert_loop T W p a cs ks ns = Inr ns'" and q: "quantized a"
    and par: "par \<in> {''weight'', ''bias''}"
    and "map_of ns (modul @ ''.'' @ par) = None \<or>
         (\<exists>w. map_of ns (modul @ ''.'' @ par) =
               Some (clamp_round T (if modul = ''fc'' then FC_CLAMP_BITS else W) w))"
  shows "map_of ns' (modul @ ''.'' @ par) = None \<or>
         (\<exists>w. map_of ns' (modul @ ''.'' @ par) =
               Some (clamp_round T (if modul = ''fc'' then FC_CLAMP_BITS else W) w))"
  using assms(1,4)
proof (induction ks arbitrary: ns)
  case Nil
  then show ?case by simp
next
  case (Cons x ks)
  from Cons.prems(1) obtain ns1 where
    s: "convert_key T W p a cs x ns = Inr ns1" and l: "convert_loop T W p a cs ks ns1 = Inr ns'"
    by (auto split: sum.splits)
  from convert_key_quantized_at[OF s q par, of modul] Cons.prems(2)
  have "map_of ns1 (modul @ ''.'' @ par) = None \<or>
         (\<exists>w. map_of ns1 (modul @ ''.'' @ par) =
               Some (clamp_round T (if modul = ''fc'' then FC_CLAMP_BITS else W) w))"
    by metis
  from Cons.IH[OF l this] show ?case .
qed

lemma convert_loop_stored:
  assumes "convert_loop T W p a cs ks ns = Inr ns'" and q: "quantized a"
    and par: "par \<in> {''weight'', ''bias''}"
    and nw: "\<not> (\<exists>m. modul = m @ ''.wrapped_module'')"
    and "\<exists>w. map_of ns (modul @ ''.'' @ par) =
               Some (clamp_round T (if modul = ''fc'' then FC_CLAMP_BITS else W) w)"
  shows "\<exists>w. map_of ns' (modul @ ''.'' @ par) =
               Some (clamp_round T (if modul = ''fc'' then FC_CLAMP_BITS else W) w)"
  using assms(1,5)
proof (induction ks arbitrary: ns)
  case Nil
  then show ?case by simp
next
  case (Cons x ks)
  from Cons.prems(1) obtain ns1 where
    s: "convert_key T W p a cs x ns = Inr ns1" and l: "convert_loop T W p a cs ks ns1 = Inr ns'"
    by (auto split: sum.splits)
  from convert_key_quantized_at[OF s q par, of modul] Cons.prems(2) nw
  have "\<exists>w. map_of ns1 (modul @ ''.'' @ par) =
               Some (clamp_round T (if modul = ''fc'' then FC_CLAMP_BITS else W) w)"
    by metis
  from Cons.IH[OF l this] show ?case .
qed

lemma convert_loop_wrapped:
  assumes "convert_loop T W p a cs ks ns = Inr ns'" and q: "quantized a"
    and par: "par \<in> {''weight'', ''bias''}"
    and "modul @ ''.wrapped_module.'' @ par \<in> set ks"
  shows "map_of cs (modul @ ''.'' @ take 1 par @ ''_scale'') \<noteq> None \<and>
         map_of ns' (modul @ ''.'' @ take 1 par @ ''_scale'') = None \<and>
         (map_of ns' (modul @ ''.'' @ par) = None \<or>
          (\<exists>w. map_of ns' (modul @ ''.'' @ par) =
               Some (clamp_round T (if modul = ''fc'' then FC_CLAMP_BITS else W) w))) \<and>
         (\<not> (\<exists>m. modul = m @ ''.wrapped_module'') \<longrightarrow>
          (\<exists>w. map_of ns' (modul @ ''.'' @ par) =
               Some (clamp_round T (if modul = ''fc'' then FC_CLAMP_BITS else W) w)))"
  using assms(1,4)
proof (induction ks arbitrary: ns)
  case Nil
  then show ?case by simp
next
  case (Cons x ks)
  from Cons.prems(1) obtain ns1 where
    s: "convert_key T W p a cs x ns = Inr ns1" and l: "convert_loop T W p a cs ks ns1 = Inr ns'"
    by (auto split: sum.splits)
  show ?case
  proof (cases "modul @ ''.wrapped_module.'' @ par \<in> set ks")
    case True
    from Cons.IH[OF l True] show ?thesis .
  next
    case False
    with Cons.prems(2) have x: "x = modul @ ''.wrapped_module.'' @ par" by simp
    from convert_key_wrapped_self[OF s[unfolded x] q par]
    have sc: "map_of cs (modul @ ''.'' @ take 1 par @ ''_scale'') \<noteq> None"
      and gone: "map_of ns1 (modul @ ''.'' @ take 1 par @ ''_scale'') = None"
      and st: "\<exists>w. map_of ns1 (modul @ ''.'' @ par) =
               Some (clamp_round T (if modul = ''fc'' then FC_CLAMP_BITS else W) w)"
      by blast+
    have "last_component (modul @ ''.'' @ take 1 par @ ''_scale'') \<noteq> ''weight''"
      "last_component (modul @ ''.'' @ take 1 par @ ''_scale'') \<noteq> ''bias''"
      unfolding last_component_scale[OF par] using par by auto
    from convert_loop_absent[OF l gone this]
    have g: "map_of ns' (modul @ ''.'' @ take 1 par @ ''_scale'') = None" .
    from st have "map_of ns1 (modul @ ''.'' @ par) = None \<or>
         (\<exists>w. map_of ns1 (modul @ ''.'' @ par) =
               Some (clamp_round T (if modul = ''fc'' then FC_CLAMP_BITS else W) w))" by simp
    from convert_loop_stored_or_absent[OF l q par this]
    have soa: "map_of ns' (modul @ ''.'' @ par) = None \<or>
          (\<exists>w. map_of ns' (modul @ ''.'' @ par) =
               Some (clamp_round T (if modul = ''fc'' then FC_CLAMP_BITS else W) w))" .
    have "\<exists>w. map_of ns' (modul @ ''.'' @ par) =
               Some (clamp_round T (if modul = ''fc'' then FC_CLAMP_BITS else W) w)"
      if "\<not> (\<exists>m. modul = m @ ''.wrapped_module'')"
      using convert_loop_stored[OF l q par that st] .
    with sc g soa show ?thesis by blast
  qed
qed

subsection \<open>Entries the loop does not touch\<close>

lemma convert_key_frame:
  assumes ok: "convert_key T W p a cs k ns = Inr ns'"
    and lc: "last_component K \<notin> {''weight'', ''bias'', ''w_zero_point'', ''b_zero_point'', ''base_b_q''}"
    and ns: "quantized a \<longrightarrow>
       \<not> (\<exists>modul par. par \<in> {''weight'', ''bias''} \<and> k = modul @ ''.wrapped_module.'' @ par \<and>
              K = modul @ ''.'' @ take 1 par @ ''_scale'')"
  shows "map_of ns' K = map_of ns K"
proof (cases "quantized a")
  case False
  from convert_key_plain_effect[OF ok False] show ?thesis
  proof (elim disjE conjE exE)
    assume "last_component k \<in> {''w_zero_point'', ''b_zero_point'', ''base_b_q''}"
      and d: "delitem k ns = Inr ns'"
    with lc have "K \<noteq> k" by auto
    with delitem_Inr[OF d] show ?thesis by simp
  next
    fix t s
    assume "last_component k \<in> {''weight'', ''bias''}"
      and n: "ns' = setitem k
                 (clamp_round T (if first_component k = ''fc'' then FC_CLAMP_BITS else W)
                    (t_scale T (s_times T (pow2 ((if first_component k = ''fc'' then FC_CLAMP_BITS
                                                 else W) - 1)) s) t)) ns"
    with lc have "K \<noteq> k" by auto
    with n show ?thesis by (simp add: map_of_setitem)
  next
    assume "ns' = ns"
    then show ?thesis by simp
  qed
next
  case True
  from convert_key_quantized_effect[OF ok True] show ?thesis
  proof (elim disjE conjE exE)
    assume "last_component k \<in> {''w_zero_point'', ''b_zero_point'', ''base_b_q''}"
      and d: "delitem k ns = Inr ns'"
    with lc have "K \<noteq> k" by auto
    with delitem_Inr[OF d] show ?thesis by simp
  next
    fix modul par w
    assume par: "par \<in> {''weight'', ''bias''}"
      and k: "k = modul @ ''.wrapped_module.'' @ par"
      and m: "map_of ns' =
              (map_of ns)(modul @ ''.'' @ par \<mapsto>
                   clamp_round T (if modul = ''fc'' then FC_CLAMP_BITS else W) w,
                 k := None, modul @ ''.'' @ take 1 par @ ''_scale'' := None)"
    have "last_component (modul @ ''.'' @ par) = par" using par by (rule last_component_stored)
    with lc par have n1: "K \<noteq> modul @ ''.'' @ par" by auto
    have "last_component k = par" unfolding k using par by (rule last_component_wrapped)
    with lc par have n2: "K \<noteq> k" by auto
    from ns True par k have n3: "K \<noteq> modul @ ''.'' @ take 1 par @ ''_scale''" by blast
    show ?thesis unfolding m using n1 n2 n3 by simp
  next
    assume "ns' = ns"
    then show ?thesis by simp
  qed
qed

lemma convert_loop_frame:
  assumes "convert_loop T W p a cs ks ns = Inr ns'"
    and lc: "last_component K \<notin> {''weight'', ''bias'', ''w_zero_point'', ''b_zero_point'', ''base_b_q''}"
    and "quantized a \<longrightarrow>
       \<not> (\<exists>modul par. par \<in> {''weight'', ''bias''} \<and> modul @ ''.wrapped_module.'' @ par \<in> set ks \<and>
              K = modul @ ''.'' @ take 1 par @ ''_scale'')"
  shows "map_of ns' K = map_of ns K"
  using assms(1,3)
proof (induction ks arbitrary: ns)
  case Nil
  then show ?case by simp
next
  case (Cons x ks)
  from Cons.prems(1) obtain ns1 where
    s: "convert_key T W p a cs x ns = Inr ns1" and l: "convert_loop T W p a cs ks ns1 = Inr ns'"
    by (auto split: sum.splits)
  have 1: "quantized a \<longrightarrow>
       \<not> (\<exists>modul par. par \<in> {''weight'', ''bias''} \<and> x = modul @ ''.wrapped_module.'' @ par \<and>
              K = modul @ ''.'' @ take 1 par @ ''_scale'')"
    using Cons.prems(2) by auto
  have 2: "quantized a \<longrightarrow>
       \<not> (\<exists>modul par. par \<in> {''weight'', ''bias''} \<and> modul @ ''.wrapped_module.'' @ par \<in> set ks \<and>
              K = modul @ ''.'' @ take 1 par @ ''_scale'')"
    using Cons.prems(2) by auto
  from convert_key_frame[OF s lc 1] Cons.IH[OF l 2] show ?case by simp
qed


lemma convert_loop_plain_value:
  assumes "convert_loop T W p a cs ks ns = Inr ns'" and nq: "\<not> quantized a"
    and "k \<in> set ks" and lc: "last_component k \<in> {''weight'', ''bias''}"
    and t: "map_of cs k = Some t"
  shows "\<exists>s. (if first_component k = ''fc'' then get_const T t else sat_fn T a t) = Inr s \<and>
     map_of ns' k =
       Some (clamp_round T (if first_component k = ''fc'' then FC_CLAMP_BITS else W)
         (t_scale T (s_times T (pow2 ((if first_component k = ''fc'' then FC_CLAMP_BITS else W) - 1)) s) t))"
  using assms(1,3)
proof (induction ks arbitrary: ns)
  case Nil
  then show ?case by simp
next
  case (Cons x ks)
  from Cons.prems(1) obtain ns1 where
    s: "convert_key T W p a cs x ns = Inr ns1" and l: "convert_loop T W p a cs ks ns1 = Inr ns'"
    by (auto split: sum.splits)
  show ?case
  proof (cases "k \<in> set ks")
    case True
    from Cons.IH[OF l True] show ?thesis .
  next
    case False
    with Cons.prems(2) have x: "x = k" by simp
    from convert_loop_plain_other[OF l nq False] have same: "map_of ns' k = map_of ns1 k" .
    from convert_key_plain_effect[OF s[unfolded x] nq] lc t
    obtain s' where
      sat: "(if first_component k = ''fc'' then get_const T t else sat_fn T a t) = Inr s'"
      and n: "ns1 = setitem k (clamp_round T (if first_component k = ''fc'' then FC_CLAMP_BITS else W)
        (t_scale T (s_times T (pow2 ((if first_component k = ''fc'' then FC_CLAMP_BITS else W) - 1)) s') t)) ns"
      by auto
    from n have "map_of ns1 k =
      Some (clamp_round T (if first_component k = ''fc'' then FC_CLAMP_BITS else W)
        (t_scale T (s_times T (pow2 ((if first_component k = ''fc'' then FC_CLAMP_BITS else W) - 1)) s') t))"
      by (simp add: map_of_setitem)
    with same have "map_of ns' k =
      Some (clamp_round T (if first_component k = ''fc'' then FC_CLAMP_BITS else W)
        (t_scale T (s_times T (pow2 ((if first_component k = ''fc'' then FC_CLAMP_BITS else W) - 1)) s') t))"
      by (rule trans)
    with sat have "(if first_component k = ''fc'' then get_const T t else sat_fn T a t) = Inr s' \<and>
      map_of ns' k =
      Some (clamp_round T (if first_component k = ''fc'' then FC_CLAMP_BITS else W)
        (t_scale T (s_times T (pow2 ((if first_component k = ''fc'' then FC_CLAMP_BITS else W) - 1)) s') t))"
      by (rule conjI)
    then show ?thesis by (rule exI)
  qed
qed

subsection \<open>Clamping and rounding in the instance\<close>






section \<open>Properties of the training loop\<close>

subsection \<open>The sort\<close>









subsection \<open>The trace\<close>



subsection \<open>The history in the loop\<close>






section \<open>The claims\<close>

text \<open>
  C1. In a conversion without \<open>--quantized\<close> that succeeds, the converted value of every
  entry of the state dictionary whose key ends in the component \<open>weight\<close> or \<open>bias\<close> is
  \<open>round(clamp(2^(clamp_bits-1) * sat(t) * t, -(2^(clamp_bits-1)), 2^(clamp_bits-1)-1))\<close>
  of the original tensor \<open>t\<close>, computed by the library's \<open>round\<close>, \<open>clamp\<close> and products,
  where \<open>clamp_bits\<close> is 16 and \<open>sat\<close> the constant when the key's first component is \<open>fc\<close>,
  and \<open>clamp_bits\<close> is \<open>WEIGHT_BITS\<close> and \<open>sat\<close> the selected saturation statistic otherwise.
\<close>

theorem plain_conversion_value:
  assumes "convert_state T WEIGHT_BITS pow2_round arguments checkpoint = Inr (checkpoint', new_state)"
    and "\<not> quantized arguments"
    and "map_of checkpoint ''state_dict'' = Some (StateDict state)"
    and "map_of state k = Some t"
    and "last_component k = ''weight'' \<or> last_component k = ''bias''"
  shows "\<exists>s. (if first_component k = ''fc'' then get_const T t else sat_fn T arguments t) = Inr s \<and>
     map_of new_state k =
       Some (t_round T
         (t_clamp T (- pow2 ((if first_component k = ''fc'' then 16 else WEIGHT_BITS) - 1))
                    (pow2 ((if first_component k = ''fc'' then 16 else WEIGHT_BITS) - 1) - 1)
            (t_scale T
               (s_times T (pow2 ((if first_component k = ''fc'' then 16 else WEIGHT_BITS) - 1)) s)
               t)))"
proof -
  from convert_state_loop[OF assms(1)] assms(3)
  have l: "convert_loop T WEIGHT_BITS pow2_round arguments state (map fst state) state = Inr new_state"
    by auto
  have k: "k \<in> set (map fst state)" using assms(4) by (metis map_of_SomeD fst_conv image_eqI set_map)
  from assms(5) have lc: "last_component k \<in> {''weight'', ''bias''}" by simp
  from convert_loop_plain_value[OF l assms(2) k lc assms(4)]
  show ?thesis
    by (cases "first_component k = ''fc''") (simp_all add: clamp_round_def FC_CLAMP_BITS_def)
qed

theorem plain_conversion_value_witness:
  "convert_state example_torch 8 example_pow2_round
      \<lparr>embedded = False, quantized = False, verbose = False, clip_mode = ''SCALE''\<rparr>
      [(''epoch'', Other 3),
       (''state_dict'', StateDict [(''conv1.weight'', Tensor [2] [Some (1 / 2), Some (- 3)]),
          (''fc.bias'', Tensor [1] [Some (1 / 100)])])]
   = Inr ([(''epoch'', Other 3),
       (''state_dict'', StateDict [(''conv1.weight'', Tensor [2] [Some (1 / 2), Some (- 3)]),
          (''fc.bias'', Tensor [1] [Some (1 / 100)])])],
      [(''conv1.weight'', Tensor [2] [Some 41, Some (- 128)]),
       (''fc.bias'', Tensor [1] [Some 209])])
   \<and> (\<exists>s. sat_fn example_torch
            \<lparr>embedded = False, quantized = False, verbose = False, clip_mode = ''SCALE''\<rparr>
            (Tensor [2] [Some (1 / 2), Some (- 3)]) = Inr s \<and>
        map_of [(''conv1.weight'', Tensor [2] [Some 41, Some (- 128)]),
                (''fc.bias'', Tensor [1] [Some 209])] ''conv1.weight'' =
        Some (t_round example_torch (t_clamp example_torch (- pow2 (8 - 1)) (pow2 (8 - 1) - 1)
           (t_scale example_torch (s_times example_torch (pow2 (8 - 1)) s)
              (Tensor [2] [Some (1 / 2), Some (- 3)])))))"
proof -
  let ?a = "\<lparr>embedded = False, quantized = False, verbose = False, clip_mode = ''SCALE''\<rparr>"
  let ?sd = "[(''conv1.weight'', Tensor [2] [Some (1 / 2), Some (- 3)]),
          (''fc.bias'', Tensor [1] [Some (1 / 100)])]"
  let ?cp = "[(''epoch'', Other 3), (''state_dict'', StateDict ?sd)]"
  let ?ns = "[(''conv1.weight'', Tensor [2] [Some 41, Some (- 128)]),
       (''fc.bias'', Tensor [1] [Some 209])]"
  have h1: "convert_state example_torch 8 example_pow2_round ?a ?cp = Inr (?cp, ?ns)" by code_simp
  have h2: "\<not> quantized ?a" by simp
  have h3: "map_of ?cp ''state_dict'' = Some (StateDict ?sd)" by simp
  have h5: "map_of ?sd ''conv1.weight'' = Some (Tensor [2] [Some (1 / 2), Some (- 3)])" by simp
  have h6: "last_component ''conv1.weight'' = ''weight'' \<or> last_component ''conv1.weight'' = ''bias''"
    by code_simp
  have h7: "first_component ''conv1.weight'' \<noteq> ''fc''" by code_simp
  show ?thesis using plain_conversion_value[OF h1 h2 h3 h5 h6] h1 h7 by simp
qed



text \<open>
  C6. The converter raises RuntimeError whenever the loaded checkpoint has no \<open>state_dict\<close>
  entry and, under \<open>--quantized\<close>, whenever it has no \<open>quantizer_metadata\<close> entry; under
  \<open>--quantized\<close> a conversion that succeeds has removed \<open>quantizer_metadata\<close> from the
  checkpoint dictionary, so a checkpoint that is written does not hold it.
\<close>

theorem missing_entries_raise:
  "(\<not> contains checkpoint ''state_dict'' \<longrightarrow>
      convert_checkpoint T WEIGHT_BITS pow2_round arguments checkpoint = Inl RuntimeError) \<and>
   (quantized arguments \<and> \<not> contains checkpoint ''quantizer_metadata'' \<longrightarrow>
      convert_checkpoint T WEIGHT_BITS pow2_round arguments checkpoint = Inl RuntimeError) \<and>
   (quantized arguments \<and>
    convert_checkpoint T WEIGHT_BITS pow2_round arguments checkpoint = Inr out \<longrightarrow>
      (\<exists>checkpoint' new_state.
         convert_state T WEIGHT_BITS pow2_round arguments checkpoint = Inr (checkpoint', new_state) \<and>
         \<not> contains checkpoint' ''quantizer_metadata'') \<and>
      (\<forall>written. saved out = Some written \<longrightarrow> \<not> contains written ''quantizer_metadata''))"
proof (intro conjI impI)
  assume "\<not> contains checkpoint ''state_dict''"
  then show "convert_checkpoint T WEIGHT_BITS pow2_round arguments checkpoint = Inl RuntimeError"
    by (intro convert_checkpoint_Inl convert_state_no_state_dict)
next
  assume "quantized arguments \<and> \<not> contains checkpoint ''quantizer_metadata''"
  then show "convert_checkpoint T WEIGHT_BITS pow2_round arguments checkpoint = Inl RuntimeError"
    by (intro convert_checkpoint_Inl convert_state_no_metadata) auto
next
  assume a: "quantized arguments \<and>
    convert_checkpoint T WEIGHT_BITS pow2_round arguments checkpoint = Inr out"
  then obtain cp' ns where
    cs: "convert_state T WEIGHT_BITS pow2_round arguments checkpoint = Inr (cp', ns)"
    and out: "out = (if \<not> embedded arguments
            then \<lparr>saved = Some (setitem ''state_dict'' (StateDict ns) cp'), printed = []\<rparr>
            else \<lparr>saved = None,
                  printed = concat (map (\<lambda>(k, t). [define_line k, AsInt t]) ns)\<rparr>)"
    using convert_checkpoint_Inr by blast
  from convert_state_Inr[OF cs] a have "delitem ''quantizer_metadata'' checkpoint = Inr cp'"
    by auto
  then have gone: "\<not> contains cp' ''quantizer_metadata''"
    by (simp add: delitem_Inr_iff contains_filter_key)
  with cs show "\<exists>checkpoint' new_state.
         convert_state T WEIGHT_BITS pow2_round arguments checkpoint = Inr (checkpoint', new_state) \<and>
         \<not> contains checkpoint' ''quantizer_metadata''" by blast
  from gone out show "\<forall>written. saved out = Some written \<longrightarrow> \<not> contains written ''quantizer_metadata''"
    by (auto simp: contains_setitem split: if_splits)
qed

theorem missing_entries_raise_witness:
  "(\<not> contains [(''epoch'', Other 1 :: tensor cval)] ''state_dict'' \<and>
    convert_checkpoint example_torch 8 example_pow2_round
      \<lparr>embedded = False, quantized = False, verbose = False, clip_mode = ''SCALE''\<rparr>
      [(''epoch'', Other 1)] = Inl RuntimeError) \<and>
   (\<not> contains [(''state_dict'', StateDict [] :: tensor cval)] ''quantizer_metadata'' \<and>
    convert_checkpoint example_torch 8 example_pow2_round
      \<lparr>embedded = False, quantized = True, verbose = False, clip_mode = ''SCALE''\<rparr>
      [(''state_dict'', StateDict [])] = Inl RuntimeError) \<and>
   (convert_checkpoint example_torch 8 example_pow2_round
      \<lparr>embedded = False, quantized = True, verbose = False, clip_mode = ''SCALE''\<rparr>
      [(''quantizer_metadata'', Other 7), (''state_dict'', StateDict [])]
      = Inr \<lparr>saved = Some [(''state_dict'', StateDict [])], printed = []\<rparr> \<and>
    \<not> contains [(''state_dict'', StateDict [] :: tensor cval)] ''quantizer_metadata'')"
proof -
  let ?a = "\<lparr>embedded = False, quantized = False, verbose = False, clip_mode = ''SCALE''\<rparr>"
  let ?q = "\<lparr>embedded = False, quantized = True, verbose = False, clip_mode = ''SCALE''\<rparr>"
  let ?c1 = "[(''epoch'', Other 1 :: tensor cval)]"
  let ?c2 = "[(''state_dict'', StateDict [] :: tensor cval)]"
  let ?c3 = "[(''quantizer_metadata'', Other 7), (''state_dict'', StateDict [] :: tensor cval)]"
  let ?out = "\<lparr>saved = Some ?c2, printed = [] :: tensor line list\<rparr>"
  have h1: "\<not> contains ?c1 ''state_dict''" by code_simp
  have h2: "quantized ?q \<and> \<not> contains ?c2 ''quantizer_metadata''"
    by code_simp
  have h3: "convert_checkpoint example_torch 8 example_pow2_round ?q ?c3 = Inr ?out"
    by code_simp
  have q: "quantized ?q" by simp
  have s: "saved ?out = Some ?c2" by simp
  note m1 = missing_entries_raise[of ?c1 example_torch 8 example_pow2_round ?a, THEN conjunct1]
  note m2 = missing_entries_raise[of ?c2 example_torch 8 example_pow2_round ?q,
      THEN conjunct2, THEN conjunct1]
  note m3 = missing_entries_raise[of ?c3 example_torch 8 example_pow2_round ?q ?out,
      THEN conjunct2, THEN conjunct2]
  from m1 h1 have c1: "convert_checkpoint example_torch 8 example_pow2_round ?a ?c1 = Inl RuntimeError"
    by (rule mp)
  from m2 h2 have c2: "convert_checkpoint example_torch 8 example_pow2_round ?q ?c2 = Inl RuntimeError"
    by (rule mp)
  from q h3 have "quantized ?q \<and>
      convert_checkpoint example_torch 8 example_pow2_round ?q ?c3 = Inr ?out" by (intro conjI)
  with m3 have "(\<exists>checkpoint' new_state.
         convert_state example_torch 8 example_pow2_round ?q ?c3 = Inr (checkpoint', new_state) \<and>
         \<not> contains checkpoint' ''quantizer_metadata'') \<and>
      (\<forall>written. saved ?out = Some written \<longrightarrow> \<not> contains written ''quantizer_metadata'')"
    by (rule mp)
  then have "\<forall>written. saved ?out = Some written \<longrightarrow> \<not> contains written ''quantizer_metadata''"
    by (rule conjunct2)
  then have "saved ?out = Some ?c2 \<longrightarrow> \<not> contains ?c2 ''quantizer_metadata''" by (rule spec)
  from this s have c3: "\<not> contains ?c2 ''quantizer_metadata''" by (rule mp)
  from h1 c1 h2[THEN conjunct2] c2 h3 c3 show ?thesis by (intro conjI)
qed

text \<open>
  C8, as amended. For a key of the form \<open>operation.w_zero_point\<close> or
  \<open>operation.b_zero_point\<close> the iteration of the loop for that key raises RuntimeError if an
  element of its tensor is not zero and otherwise deletes the entry from the new state; a
  key that is \<open>w_zero_point\<close> or \<open>b_zero_point\<close> alone, with no dot, raises ValueError
  whatever its tensor holds. A conversion therefore succeeds only if every zero-point
  tensor is all zero, and the state it produces has no entry whose key ends in the
  component \<open>w_zero_point\<close> or \<open>b_zero_point\<close>.
\<close>

theorem zero_point_entries:
  assumes "last_component k = ''w_zero_point'' \<or> last_component k = ''b_zero_point''"
  shows "(CHR ''.'' \<in> set k \<and> map_of state k = Some t \<longrightarrow>
            convert_key T WEIGHT_BITS pow2_round arguments state k new_state =
              (if has_nonzero T t then Inl RuntimeError else delitem k new_state)) \<and>
         (CHR ''.'' \<notin> set k \<longrightarrow>
            convert_key T WEIGHT_BITS pow2_round arguments state k new_state = Inl ValueError) \<and>
         (convert_state T WEIGHT_BITS pow2_round arguments checkpoint = Inr (checkpoint', final) \<longrightarrow>
            map_of final k = None \<and>
            (\<forall>sd t. map_of checkpoint ''state_dict'' = Some (StateDict sd) \<and> map_of sd k = Some t
               \<longrightarrow> \<not> has_nonzero T t))"
proof (intro conjI impI)
  assume a: "CHR ''.'' \<in> set k \<and> map_of state k = Some t"
  then have "rsplit1 k \<noteq> None" by (simp add: rsplit1_None_iff)
  then obtain operation parameter where r: "rsplit1 k = Some (operation, parameter)"
    by (cases "rsplit1 k") auto
  with assms have zp: "parameter = ''w_zero_point'' \<or> parameter = ''b_zero_point''"
    by (simp add: last_component_def)
  from a have "getitem state k = Inr t" by (simp add: getitem_Inr_iff)
  then show "convert_key T WEIGHT_BITS pow2_round arguments state k new_state =
            (if has_nonzero T t then Inl RuntimeError else delitem k new_state)"
    unfolding convert_key_zero_point[OF r zp] by (simp add: bind_err_simps)
next
  assume "CHR ''.'' \<notin> set k"
  then show "convert_key T WEIGHT_BITS pow2_round arguments state k new_state = Inl ValueError"
    by (simp add: rsplit1_None_iff convert_key_nodot)
next
  assume cs: "convert_state T WEIGHT_BITS pow2_round arguments checkpoint = Inr (checkpoint', final)"
  from convert_state_loop[OF cs] obtain sd0 where
    l: "convert_loop T WEIGHT_BITS pow2_round arguments sd0 (map fst sd0) sd0 = Inr final"
    by blast
  have "k \<in> set (map fst sd0) \<or> map_of sd0 k = None"
    by (simp add: map_of_eq_None_iff)
  with convert_loop_deletes[OF l, of k] assms show "map_of final k = None" by auto
next
  assume cs: "convert_state T WEIGHT_BITS pow2_round arguments checkpoint = Inr (checkpoint', final)"
  from convert_state_loop[OF cs] obtain sd0 where
    m: "map_of checkpoint ''state_dict'' = Some (StateDict sd0)"
    and l: "convert_loop T WEIGHT_BITS pow2_round arguments sd0 (map fst sd0) sd0 = Inr final"
    by blast
  have "\<not> has_nonzero T t'" if "map_of sd0 k = Some t'" for t'
  proof -
    from that have "k \<in> set (map fst sd0)"
      by (metis map_of_eq_None_iff option.distinct(1) set_map)
    from convert_loop_zero_points[OF l assms this] that show ?thesis by simp
  qed
  with m show "\<forall>sd t. map_of checkpoint ''state_dict'' = Some (StateDict sd) \<and> map_of sd k = Some t
               \<longrightarrow> \<not> has_nonzero T t"
    by auto
qed

theorem zero_point_entries_witness:
  "(last_component ''bn.w_zero_point'' = ''w_zero_point'' \<or>
    last_component ''bn.w_zero_point'' = ''b_zero_point'') \<and>
   CHR ''.'' \<in> set ''bn.w_zero_point'' \<and>
   convert_key example_torch 8 example_pow2_round
     \<lparr>embedded = False, quantized = False, verbose = False, clip_mode = ''SCALE''\<rparr>
     [(''bn.w_zero_point'', Tensor [2] [Some 0, Some 1])] ''bn.w_zero_point''
     [(''bn.w_zero_point'', Tensor [2] [Some 0, Some 1])] = Inl RuntimeError \<and>
   convert_state example_torch 8 example_pow2_round
     \<lparr>embedded = False, quantized = False, verbose = False, clip_mode = ''SCALE''\<rparr>
     [(''state_dict'', StateDict [(''bn.w_zero_point'', Tensor [2] [Some 0, Some 0]),
         (''bn.running_mean'', Tensor [1] [Some (1 / 3)])])]
     = Inr ([(''state_dict'', StateDict [(''bn.w_zero_point'', Tensor [2] [Some 0, Some 0]),
         (''bn.running_mean'', Tensor [1] [Some (1 / 3)])])],
         [(''bn.running_mean'', Tensor [1] [Some (1 / 3)])]) \<and>
   map_of [(''bn.running_mean'', Tensor [1] [Some (1 / 3)])] ''bn.w_zero_point'' = None \<and>
   \<not> has_nonzero example_torch (Tensor [2] [Some 0, Some 0])"
proof -
  let ?a = "\<lparr>embedded = False, quantized = False, verbose = False, clip_mode = ''SCALE''\<rparr>"
  let ?k = "''bn.w_zero_point''"
  let ?bad = "[(?k, Tensor [2] [Some 0, Some 1])]"
  let ?sd = "[(?k, Tensor [2] [Some 0, Some 0]), (''bn.running_mean'', Tensor [1] [Some (1 / 3)])]"
  let ?cp = "[(''state_dict'', StateDict ?sd)]"
  let ?ns = "[(''bn.running_mean'', Tensor [1] [Some (1 / 3)])]"
  have h0: "last_component ?k = ''w_zero_point'' \<or> last_component ?k = ''b_zero_point''"
    by code_simp
  have h1: "CHR ''.'' \<in> set ?k \<and> map_of ?bad ?k = Some (Tensor [2] [Some 0, Some 1])" by simp
  have h2: "has_nonzero example_torch (Tensor [2] [Some 0, Some 1])" by code_simp
  have h3: "convert_state example_torch 8 example_pow2_round ?a ?cp = Inr (?cp, ?ns)" by code_simp
  have h4: "map_of ?cp ''state_dict'' = Some (StateDict ?sd) \<and>
            map_of ?sd ?k = Some (Tensor [2] [Some 0, Some 0])" by simp
  note z = zero_point_entries[OF h0, of ?bad "Tensor [2] [Some 0, Some 1]" example_torch 8
      example_pow2_round ?a ?bad ?cp ?cp ?ns]
  from z h1 h2 have c1: "convert_key example_torch 8 example_pow2_round ?a ?bad ?k ?bad = Inl RuntimeError"
    by simp
  from z h3 have c2: "map_of ?ns ?k = None" by blast
  from z h3 h4 have c3: "\<not> has_nonzero example_torch (Tensor [2] [Some 0, Some 0])" by blast
  from h0 h1 h3 c1 c2 c3 show ?thesis by blast
qed

theorem zero_point_entries_counterexample:
  "last_component ''w_zero_point'' = ''w_zero_point'' \<and>
   has_nonzero example_torch (Tensor [1] [Some 1]) \<and>
   convert_checkpoint example_torch 8 example_pow2_round
     \<lparr>embedded = False, quantized = False, verbose = False, clip_mode = ''SCALE''\<rparr>
     [(''state_dict'', StateDict [(''w_zero_point'', Tensor [1] [Some 1])])] = Inl ValueError \<and>
   convert_checkpoint example_torch 8 example_pow2_round
     \<lparr>embedded = False, quantized = False, verbose = False, clip_mode = ''SCALE''\<rparr>
     [(''state_dict'', StateDict [(''w_zero_point'', Tensor [1] [Some 1])])] \<noteq> Inl RuntimeError"
  by code_simp

text \<open>
  C7, as amended. A conversion without \<open>--embedded\<close> that succeeds writes every top-level
  entry of the checkpoint other than \<open>state_dict\<close> (and \<open>quantizer_metadata\<close> under
  \<open>--quantized\<close>) unchanged, the optimizer state among them. Within the state dictionary,
  every entry whose last component is none of \<open>weight\<close>, \<open>bias\<close>, \<open>w_zero_point\<close>,
  \<open>b_zero_point\<close> and \<open>base_b_q\<close> is carried over unchanged, except, under \<open>--quantized\<close>,
  the scale entry \<open>module.w_scale\<close> or \<open>module.b_scale\<close> of a wrapped-module entry
  \<open>module.wrapped_module.weight\<close> or \<open>module.wrapped_module.bias\<close> of the input.
\<close>

theorem entries_carried_over:
  assumes "convert_checkpoint T WEIGHT_BITS pow2_round arguments checkpoint = Inr out"
    and "\<not> embedded arguments"
    and "map_of checkpoint ''state_dict'' = Some (StateDict state)"
  shows "\<exists>written final.
     saved out = Some written \<and> map_of written ''state_dict'' = Some (StateDict final) \<and>
     (\<forall>K. K \<noteq> ''state_dict'' \<and> (quantized arguments \<longrightarrow> K \<noteq> ''quantizer_metadata'') \<longrightarrow>
          map_of written K = map_of checkpoint K) \<and>
     (\<forall>K. last_component K \<notin> {''weight'', ''bias'', ''w_zero_point'', ''b_zero_point'', ''base_b_q''} \<and>
          (quantized arguments \<longrightarrow>
             \<not> (\<exists>modul par. par \<in> {''weight'', ''bias''} \<and>
                   map_of state (modul @ ''.wrapped_module.'' @ par) \<noteq> None \<and>
                   K = modul @ ''.'' @ take 1 par @ ''_scale'')) \<longrightarrow>
          map_of final K = map_of state K)"
proof -
  from convert_checkpoint_Inr[OF assms(1)] assms(2) obtain cp' final where
    cs: "convert_state T WEIGHT_BITS pow2_round arguments checkpoint = Inr (cp', final)"
    and out: "out = \<lparr>saved = Some (setitem ''state_dict'' (StateDict final) cp'), printed = []\<rparr>"
    by auto
  let ?written = "setitem ''state_dict'' (StateDict final) cp'"
  from convert_state_loop[OF cs] assms(3)
  have l: "convert_loop T WEIGHT_BITS pow2_round arguments state (map fst state) state = Inr final"
    by auto
  from convert_state_Inr[OF cs]
  have c: "if quantized arguments then delitem ''quantizer_metadata'' checkpoint = Inr cp'
           else cp' = checkpoint"
    by blast
  have top: "map_of ?written K = map_of checkpoint K"
    if "K \<noteq> ''state_dict''" "quantized arguments \<longrightarrow> K \<noteq> ''quantizer_metadata''" for K
  proof (cases "quantized arguments")
    case True
    with c have "delitem ''quantizer_metadata'' checkpoint = Inr cp'" by simp
    from delitem_Inr[OF this] that True show ?thesis by (simp add: map_of_setitem)
  next
    case False
    with c that show ?thesis by (simp add: map_of_setitem)
  qed
  have inner: "map_of final K = map_of state K"
    if lc: "last_component K \<notin> {''weight'', ''bias'', ''w_zero_point'', ''b_zero_point'', ''base_b_q''}"
      and ns: "quantized arguments \<longrightarrow>
             \<not> (\<exists>modul par. par \<in> {''weight'', ''bias''} \<and>
                   map_of state (modul @ ''.wrapped_module.'' @ par) \<noteq> None \<and>
                   K = modul @ ''.'' @ take 1 par @ ''_scale'')" for K
  proof -
    have "quantized arguments \<longrightarrow>
       \<not> (\<exists>modul par. par \<in> {''weight'', ''bias''} \<and>
              modul @ ''.wrapped_module.'' @ par \<in> set (map fst state) \<and>
              K = modul @ ''.'' @ take 1 par @ ''_scale'')"
    proof (intro impI notI)
      assume q: "quantized arguments"
        and "\<exists>modul par. par \<in> {''weight'', ''bias''} \<and>
              modul @ ''.wrapped_module.'' @ par \<in> set (map fst state) \<and>
              K = modul @ ''.'' @ take 1 par @ ''_scale''"
      then obtain modul par where p: "par \<in> {''weight'', ''bias''}"
        and i: "modul @ ''.wrapped_module.'' @ par \<in> set (map fst state)"
        and K: "K = modul @ ''.'' @ take 1 par @ ''_scale''" by blast
      from i have i': "map_of state (modul @ ''.wrapped_module.'' @ par) \<noteq> None"
        by (simp add: map_of_eq_None_iff)
      have ex: "\<exists>modul par. par \<in> {''weight'', ''bias''} \<and>
                   map_of state (modul @ ''.wrapped_module.'' @ par) \<noteq> None \<and>
                   K = modul @ ''.'' @ take 1 par @ ''_scale''"
        by (rule exI[of _ modul], rule exI[of _ par]) (intro conjI p i' K)
      from ns q have "\<not> (\<exists>modul par. par \<in> {''weight'', ''bias''} \<and>
                   map_of state (modul @ ''.wrapped_module.'' @ par) \<noteq> None \<and>
                   K = modul @ ''.'' @ take 1 par @ ''_scale'')"
        by (rule mp)
      from this ex show False by (rule notE)
    qed
    from convert_loop_frame[OF l lc this] show ?thesis .
  qed
  have 1: "saved out = Some ?written" using out by simp
  have 2: "map_of ?written ''state_dict'' = Some (StateDict final)"
    by (simp add: map_of_setitem)
  have 3: "\<forall>K. K \<noteq> ''state_dict'' \<and> (quantized arguments \<longrightarrow> K \<noteq> ''quantizer_metadata'') \<longrightarrow>
          map_of ?written K = map_of checkpoint K"
  proof (intro allI impI)
    fix K
    assume "K \<noteq> ''state_dict'' \<and> (quantized arguments \<longrightarrow> K \<noteq> ''quantizer_metadata'')"
    then have "K \<noteq> ''state_dict''" "quantized arguments \<longrightarrow> K \<noteq> ''quantizer_metadata''"
      by simp_all
    then show "map_of ?written K = map_of checkpoint K" by (rule top)
  qed
  have 4: "\<forall>K. last_component K \<notin> {''weight'', ''bias'', ''w_zero_point'', ''b_zero_point'', ''base_b_q''} \<and>
          (quantized arguments \<longrightarrow>
             \<not> (\<exists>modul par. par \<in> {''weight'', ''bias''} \<and>
                   map_of state (modul @ ''.wrapped_module.'' @ par) \<noteq> None \<and>
                   K = modul @ ''.'' @ take 1 par @ ''_scale'')) \<longrightarrow>
          map_of final K = map_of state K"
  proof (intro allI impI, elim conjE)
    fix K
    assume "last_component K \<notin> {''weight'', ''bias'', ''w_zero_point'', ''b_zero_point'', ''base_b_q''}"
      and "quantized arguments \<longrightarrow>
             \<not> (\<exists>modul par. par \<in> {''weight'', ''bias''} \<and>
                   map_of state (modul @ ''.wrapped_module.'' @ par) \<noteq> None \<and>
                   K = modul @ ''.'' @ take 1 par @ ''_scale'')"
    then show "map_of final K = map_of state K" by (rule inner)
  qed
  show ?thesis
    by (rule exI[of _ ?written], rule exI[of _ final]) (intro conjI 1 2 3 4)
qed

theorem entries_carried_over_witness:
  "convert_checkpoint example_torch 8 example_pow2_round
     \<lparr>embedded = False, quantized = True, verbose = False, clip_mode = ''SCALE''\<rparr>
     [(''optimizer'', Other 5), (''quantizer_metadata'', Other 0),
      (''state_dict'', StateDict [(''c.wrapped_module.weight'', Tensor [2] [Some (1 / 2), Some 300]),
         (''c.w_scale'', Tensor [] [Some 3]),
         (''bn.running_mean'', Tensor [1] [Some (1 / 3)])])]
   = Inr \<lparr>saved = Some [(''optimizer'', Other 5),
            (''state_dict'', StateDict [(''bn.running_mean'', Tensor [1] [Some (1 / 3)]),
               (''c.weight'', Tensor [2] [Some 2, Some 127])])],
          printed = []\<rparr> \<and>
   map_of [(''optimizer'', Other 5),
            (''state_dict'', StateDict [(''bn.running_mean'', Tensor [1] [Some (1 / 3)]),
               (''c.weight'', Tensor [2] [Some 2, Some 127])])] ''optimizer'' = Some (Other 5) \<and>
   map_of [(''bn.running_mean'', Tensor [1] [Some (1 / 3)]),
           (''c.weight'', Tensor [2] [Some 2, Some 127])] ''bn.running_mean''
     = Some (Tensor [1] [Some (1 / 3)])"
proof -
  let ?a = "\<lparr>embedded = False, quantized = True, verbose = False, clip_mode = ''SCALE''\<rparr>"
  let ?sd = "[(''c.wrapped_module.weight'', Tensor [2] [Some (1 / 2), Some 300]),
         (''c.w_scale'', Tensor [] [Some 3]),
         (''bn.running_mean'', Tensor [1] [Some (1 / 3)])]"
  let ?cp = "[(''optimizer'', Other 5), (''quantizer_metadata'', Other 0),
      (''state_dict'', StateDict ?sd)]"
  let ?final = "[(''bn.running_mean'', Tensor [1] [Some (1 / 3)]),
               (''c.weight'', Tensor [2] [Some 2, Some 127])]"
  let ?written = "[(''optimizer'', Other 5), (''state_dict'', StateDict ?final)]"
  let ?out = "\<lparr>saved = Some ?written, printed = []\<rparr>"
  let ?K = "''bn.running_mean''"
  have h1: "convert_checkpoint example_torch 8 example_pow2_round ?a ?cp = Inr ?out" by code_simp
  have h2: "\<not> embedded ?a" by simp
  have h3: "map_of ?cp ''state_dict'' = Some (StateDict ?sd)" by simp
  from entries_carried_over[OF h1 h2 h3]
  obtain written where "\<exists>final.
     saved ?out = Some written \<and> map_of written ''state_dict'' = Some (StateDict final) \<and>
     (\<forall>K. K \<noteq> ''state_dict'' \<and> (quantized ?a \<longrightarrow> K \<noteq> ''quantizer_metadata'') \<longrightarrow>
          map_of written K = map_of ?cp K) \<and>
     (\<forall>K. last_component K \<notin> {''weight'', ''bias'', ''w_zero_point'', ''b_zero_point'', ''base_b_q''} \<and>
          (quantized ?a \<longrightarrow>
             \<not> (\<exists>modul par. par \<in> {''weight'', ''bias''} \<and>
                   map_of ?sd (modul @ ''.wrapped_module.'' @ par) \<noteq> None \<and>
                   K = modul @ ''.'' @ take 1 par @ ''_scale'')) \<longrightarrow>
          map_of final K = map_of ?sd K)" ..
  then obtain final where all:
    "saved ?out = Some written \<and> map_of written ''state_dict'' = Some (StateDict final) \<and>
     (\<forall>K. K \<noteq> ''state_dict'' \<and> (quantized ?a \<longrightarrow> K \<noteq> ''quantizer_metadata'') \<longrightarrow>
          map_of written K = map_of ?cp K) \<and>
     (\<forall>K. last_component K \<notin> {''weight'', ''bias'', ''w_zero_point'', ''b_zero_point'', ''base_b_q''} \<and>
          (quantized ?a \<longrightarrow>
             \<not> (\<exists>modul par. par \<in> {''weight'', ''bias''} \<and>
                   map_of ?sd (modul @ ''.wrapped_module.'' @ par) \<noteq> None \<and>
                   K = modul @ ''.'' @ take 1 par @ ''_scale'')) \<longrightarrow>
          map_of final K = map_of ?sd K)" ..
  note s = all[THEN conjunct1]
  note f = all[THEN conjunct2, THEN conjunct1]
  note top = all[THEN conjunct2, THEN conjunct2, THEN conjunct1, THEN spec, of "''optimizer''"]
  note inner = all[THEN conjunct2, THEN conjunct2, THEN conjunct2, THEN spec, of ?K]
  from s have w: "written = ?written" by simp
  from f have fin: "final = ?final" unfolding w by simp
  have lc: "last_component ?K = ''running_mean''" by code_simp
  have noscale: "\<not> (\<exists>modul par. par \<in> {''weight'', ''bias''} \<and>
        map_of ?sd (modul @ ''.wrapped_module.'' @ par) \<noteq> None \<and>
        ?K = modul @ ''.'' @ take 1 par @ ''_scale'')"
  proof
    assume "\<exists>modul par. par \<in> {''weight'', ''bias''} \<and>
        map_of ?sd (modul @ ''.wrapped_module.'' @ par) \<noteq> None \<and>
        ?K = modul @ ''.'' @ take 1 par @ ''_scale''"
    then obtain modul where "\<exists>par. par \<in> {''weight'', ''bias''} \<and>
        map_of ?sd (modul @ ''.wrapped_module.'' @ par) \<noteq> None \<and>
        ?K = modul @ ''.'' @ take 1 par @ ''_scale''" ..
    then obtain par where pk: "par \<in> {''weight'', ''bias''} \<and>
        map_of ?sd (modul @ ''.wrapped_module.'' @ par) \<noteq> None \<and>
        ?K = modul @ ''.'' @ take 1 par @ ''_scale''" ..
    note p = pk[THEN conjunct1]
    note K = pk[THEN conjunct2, THEN conjunct2]
    have "last_component ?K = last_component (modul @ ''.'' @ take 1 par @ ''_scale'')"
      using K by (rule arg_cong)
    then have e: "''running_mean'' = take 1 par @ ''_scale''"
      unfolding lc last_component_scale[OF p] .
    from p have "par = ''weight'' \<or> par = ''bias''" by simp
    then show False
    proof
      assume "par = ''weight''"
      with e show False by simp
    next
      assume "par = ''bias''"
      with e show False by simp
    qed
  qed
  have t: "map_of written ''optimizer'' = map_of ?cp ''optimizer''"
    by (rule top[THEN mp]) simp
  have l5: "last_component ?K \<notin> {''weight'', ''bias'', ''w_zero_point'', ''b_zero_point'', ''base_b_q''}"
    unfolding lc by simp
  have i: "map_of final ?K = map_of ?sd ?K"
    by (rule inner[THEN mp]) (intro conjI impI l5 noscale)
  have r1: "map_of ?written ''optimizer'' = Some (Other 5)" using t unfolding w by simp
  have r2: "map_of ?final ?K = Some (Tensor [1] [Some (1 / 3)])" using i unfolding fin by simp
  from h1 r1 r2 show ?thesis by (intro conjI)
qed

theorem entries_carried_over_counterexample:
  "last_component ''c.w_scale'' = ''w_scale'' \<and>
   convert_checkpoint example_torch 8 example_pow2_round
     \<lparr>embedded = False, quantized = True, verbose = False, clip_mode = ''SCALE''\<rparr>
     [(''quantizer_metadata'', Other 0),
      (''state_dict'', StateDict [(''c.wrapped_module.weight'', Tensor [2] [Some (1 / 2), Some 300]),
         (''c.w_scale'', Tensor [] [Some 3])])]
   = Inr \<lparr>saved = Some [(''state_dict'', StateDict [(''c.weight'', Tensor [2] [Some 2, Some 127])])],
          printed = []\<rparr> \<and>
   map_of [(''c.wrapped_module.weight'', Tensor [2] [Some (1 / 2), Some 300]),
           (''c.w_scale'', Tensor [] [Some 3])] ''c.w_scale'' = Some (Tensor [] [Some 3]) \<and>
   map_of [(''c.weight'', Tensor [2] [Some 2, Some 127])] ''c.w_scale'' = None"
  by code_simp


text \<open>
  C9. With \<open>--embedded\<close> no checkpoint is written: a conversion that succeeds only prints the
  converted state, for each of its keys in order a \<open>#define\<close> line that names the key with
  its dots replaced by underscores and in upper case, followed by the print of the entry's
  tensor as integers. The keys are ASCII strings.
\<close>

theorem embedded_prints_defines:
  assumes "embedded arguments"
    and "convert_checkpoint T WEIGHT_BITS pow2_round arguments checkpoint = Inr out"
    and "map_of checkpoint ''state_dict'' = Some (StateDict state)"
    and "list_all ascii (map fst state)"
  shows "saved out = None \<and>
    (\<exists>checkpoint' new_state.
       convert_state T WEIGHT_BITS pow2_round arguments checkpoint = Inr (checkpoint', new_state) \<and>
       printed out = concat (map (\<lambda>(k, t). [define_line k, AsInt t]) new_state) \<and>
       filter is_Text (printed out) =
         map (\<lambda>k. Text (''#define '' @ upper (replace CHR ''.'' CHR ''_'' k) @ '' '' @ [CHR 0x5C]))
           (map fst new_state))"
proof -
  from convert_checkpoint_Inr[OF assms(2)] assms(1) obtain cp' ns where
    cs: "convert_state T WEIGHT_BITS pow2_round arguments checkpoint = Inr (cp', ns)"
    and out: "out = \<lparr>saved = None,
                  printed = concat (map (\<lambda>(k, t). [define_line k, AsInt t]) ns)\<rparr>"
    by auto
  have "filter is_Text (printed out) = map (\<lambda>(k, t). define_line k) ns"
    using out by (simp add: filter_text_dump)
  also have "\<dots> = map (\<lambda>k. Text (''#define '' @ upper (replace CHR ''.'' CHR ''_'' k) @ '' '' @ [CHR 0x5C]))
           (map fst ns)"
    by (induction ns) (auto simp: define_line_def)
  finally show ?thesis using cs out by auto
qed

theorem embedded_prints_defines_witness:
  "convert_checkpoint example_torch 8 example_pow2_round
      \<lparr>embedded = True, quantized = False, verbose = False, clip_mode = ''SCALE''\<rparr>
      [(''state_dict'', StateDict [(''conv1.weight'', Tensor [2] [Some (1 / 2), Some (- 3)]),
          (''bn.w_zero_point'', Tensor [] [Some 0])])]
    = Inr \<lparr>saved = None,
           printed = [Text (''#define CONV1_WEIGHT '' @ [CHR 0x5C]),
                      AsInt (Tensor [2] [Some 41, Some (- 128)])]\<rparr> \<and>
   list_all ascii [''conv1.weight'', ''bn.w_zero_point''] \<and>
   filter is_Text [Text (''#define CONV1_WEIGHT '' @ [CHR 0x5C]),
                   AsInt (Tensor [2] [Some 41, Some (- 128)])]
     = [Text (''#define CONV1_WEIGHT '' @ [CHR 0x5C])]"
proof -
  let ?a = "\<lparr>embedded = True, quantized = False, verbose = False, clip_mode = ''SCALE''\<rparr>"
  let ?sd = "[(''conv1.weight'', Tensor [2] [Some (1 / 2), Some (- 3)]),
          (''bn.w_zero_point'', Tensor [] [Some 0])]"
  let ?cp = "[(''state_dict'', StateDict ?sd)]"
  let ?out = "\<lparr>saved = None,
           printed = [Text (''#define CONV1_WEIGHT '' @ [CHR 0x5C]),
                      AsInt (Tensor [2] [Some 41, Some (- 128)])]\<rparr>"
  have h1: "embedded ?a" by simp
  have h2: "convert_checkpoint example_torch 8 example_pow2_round ?a ?cp = Inr ?out" by code_simp
  have h3: "map_of ?cp ''state_dict'' = Some (StateDict ?sd)" by simp
  have h4: "list_all ascii (map fst ?sd)" by code_simp
  have h5: "convert_state example_torch 8 example_pow2_round ?a ?cp
      = Inr (?cp, [(''conv1.weight'', Tensor [2] [Some 41, Some (- 128)])])"
    by code_simp
  have h6: "upper (replace CHR ''.'' CHR ''_'' ''conv1.weight'') = ''CONV1_WEIGHT''" by code_simp
  from embedded_prints_defines[OF h1 h2 h3 h4] obtain cp' ns where
    cs: "convert_state example_torch 8 example_pow2_round ?a ?cp = Inr (cp', ns)"
    and f: "filter is_Text (printed ?out) =
         map (\<lambda>k. Text (''#define '' @ upper (replace CHR ''.'' CHR ''_'' k) @ '' '' @ [CHR 0x5C]))
           (map fst ns)"
    by blast
  from cs h5 have ns: "ns = [(''conv1.weight'', Tensor [2] [Some 41, Some (- 128)])]" by simp
  have r: "filter is_Text (printed ?out) = [Text (''#define CONV1_WEIGHT '' @ [CHR 0x5C])]"
    unfolding f ns using h6 by simp
  have a: "list_all ascii [''conv1.weight'', ''bn.w_zero_point'']" using h4 by simp
  from h2 a r show ?thesis by simp
qed

text \<open>
  C3, as amended. In a conversion with \<open>--quantized\<close> that succeeds, the scale factors are
  not part of the output: for every entry \<open>module.wrapped_module.weight\<close> (or \<open>.bias\<close>) of
  the input, the input holds the scale entry \<open>module.w_scale\<close> (or \<open>.b_scale\<close>) and the
  converted state does not hold it; the converted state holds the corresponding weight
  (or bias) as the entry \<open>module.weight\<close> (or \<open>module.bias\<close>), for a module whose own name
  does not end in \<open>.wrapped_module\<close>.
\<close>

theorem wrapped_scale_deleted:
  assumes "convert_state T WEIGHT_BITS pow2_round arguments checkpoint = Inr (checkpoint', final)"
    and "quantized arguments"
    and "map_of checkpoint ''state_dict'' = Some (StateDict state)"
    and "par = ''weight'' \<or> par = ''bias''"
    and "map_of state (modul @ ''.wrapped_module.'' @ par) \<noteq> None"
  shows "map_of state (modul @ ''.'' @ take 1 par @ ''_scale'') \<noteq> None \<and>
         map_of final (modul @ ''.'' @ take 1 par @ ''_scale'') = None \<and>
         (\<not> (\<exists>m. modul = m @ ''.wrapped_module'') \<longrightarrow>
            map_of final (modul @ ''.'' @ par) \<noteq> None)"
proof -
  from convert_state_loop[OF assms(1)] assms(3)
  have l: "convert_loop T WEIGHT_BITS pow2_round arguments state (map fst state) state = Inr final"
    by auto
  from assms(4) have par: "par \<in> {''weight'', ''bias''}" by simp
  from assms(5) have "modul @ ''.wrapped_module.'' @ par \<in> set (map fst state)"
    by (metis map_of_eq_None_iff set_map)
  note w = convert_loop_wrapped[OF l assms(2) par this]
  note 1 = w[THEN conjunct1]
  note 2 = w[THEN conjunct2, THEN conjunct1]
  note 3 = w[THEN conjunct2, THEN conjunct2, THEN conjunct2]
  have "map_of final (modul @ ''.'' @ par) \<noteq> None"
    if n: "\<not> (\<exists>m. modul = m @ ''.wrapped_module'')"
  proof -
    from 3 n have "\<exists>w. map_of final (modul @ ''.'' @ par) =
        Some (clamp_round T (if modul = ''fc'' then FC_CLAMP_BITS else WEIGHT_BITS) w)"
      by (rule mp)
    then obtain w where "map_of final (modul @ ''.'' @ par) =
        Some (clamp_round T (if modul = ''fc'' then FC_CLAMP_BITS else WEIGHT_BITS) w)" ..
    then show ?thesis by simp
  qed
  then have "\<not> (\<exists>m. modul = m @ ''.wrapped_module'') \<longrightarrow>
            map_of final (modul @ ''.'' @ par) \<noteq> None" by (rule impI)
  with 1 2 show ?thesis by (intro conjI)
qed

theorem wrapped_scale_deleted_witness:
  "convert_state example_torch 8 example_pow2_round
     \<lparr>embedded = False, quantized = True, verbose = False, clip_mode = ''SCALE''\<rparr>
     [(''quantizer_metadata'', Other 0),
      (''state_dict'', StateDict [(''fc.wrapped_module.weight'', Tensor [2] [Some (1 / 2), Some 300]),
         (''fc.w_scale'', Tensor [] [Some 3])])]
   = Inr ([(''state_dict'', StateDict [(''fc.wrapped_module.weight'', Tensor [2] [Some (1 / 2), Some 300]),
         (''fc.w_scale'', Tensor [] [Some 3])])],
       [(''fc.weight'', Tensor [2] [Some 2, Some 900])]) \<and>
   map_of [(''fc.wrapped_module.weight'', Tensor [2] [Some (1 / 2), Some 300]),
         (''fc.w_scale'', Tensor [] [Some 3])] ''fc.w_scale'' \<noteq> None \<and>
   map_of [(''fc.weight'', Tensor [2] [Some 2, Some 900])] ''fc.w_scale'' = None \<and>
   map_of [(''fc.weight'', Tensor [2] [Some 2, Some 900])] ''fc.weight'' \<noteq> None"
proof -
  let ?a = "\<lparr>embedded = False, quantized = True, verbose = False, clip_mode = ''SCALE''\<rparr>"
  let ?sd = "[(''fc.wrapped_module.weight'', Tensor [2] [Some (1 / 2), Some 300]),
         (''fc.w_scale'', Tensor [] [Some 3])]"
  let ?cp = "[(''quantizer_metadata'', Other 0), (''state_dict'', StateDict ?sd)]"
  let ?cp' = "[(''state_dict'', StateDict ?sd)]"
  let ?final = "[(''fc.weight'', Tensor [2] [Some 2, Some 900])]"
  have h1: "convert_state example_torch 8 example_pow2_round ?a ?cp = Inr (?cp', ?final)"
    by code_simp
  have h2: "quantized ?a" by simp
  have h3: "map_of ?cp ''state_dict'' = Some (StateDict ?sd)" by simp
  have h4: "''weight'' = ''weight'' \<or> ''weight'' = ''bias''" by simp
  have h5: "map_of ?sd (''fc'' @ ''.wrapped_module.'' @ ''weight'') \<noteq> None" by simp
  have h6: "\<not> (\<exists>m. ''fc'' = m @ ''.wrapped_module'')" by simp
  note t = wrapped_scale_deleted[OF h1 h2 h3 h4 h5]
  from t[THEN conjunct1] have r1: "map_of ?sd ''fc.w_scale'' \<noteq> None" by simp
  from t[THEN conjunct2, THEN conjunct1] have r2: "map_of ?final ''fc.w_scale'' = None" by simp
  from t[THEN conjunct2, THEN conjunct2] h6
  have "map_of ?final (''fc'' @ ''.'' @ ''weight'') \<noteq> None" by (rule mp)
  then have r3: "map_of ?final ''fc.weight'' \<noteq> None" by simp
  from h1 r1 r2 r3 show ?thesis by (intro conjI)
qed

theorem wrapped_scale_deleted_counterexample:
  "convert_checkpoint example_torch 8 example_pow2_round
     \<lparr>embedded = False, quantized = True, verbose = False, clip_mode = ''SCALE''\<rparr>
     [(''quantizer_metadata'', Other 0),
      (''state_dict'', StateDict [(''c.wrapped_module.weight'', Tensor [2] [Some (1 / 2), Some 300]),
         (''c.w_scale'', Tensor [] [Some 3])])]
   = Inr \<lparr>saved = Some [(''state_dict'', StateDict [(''c.weight'', Tensor [2] [Some 2, Some 127])])],
          printed = []\<rparr> \<and>
   \<not> contains [(''c.weight'', Tensor [2] [Some 2, Some 127])] ''c.w_scale''"
  by code_simp








end
